theory Spec2Isabelle
  imports Main "HOL-Library.AList"
begin

section \<open>The DNS hijack table (package dns)\<close>

subsection \<open>Addresses, time and DNS messages\<close>

text \<open>
  A \<^verbatim>\<open>net.IP\<close> is a byte slice that may be \<^verbatim>\<open>nil\<close>. The table only ever compares
  addresses through \<^verbatim>\<open>ip.String()\<close>, which is injective on IPv4 addresses, so an
  address is modelled by its 32-bit number and a nullable \<^verbatim>\<open>net.IP\<close> by an option.
  A \<^verbatim>\<open>time.Time\<close> is a number of seconds; \<^verbatim>\<open>time.Now()\<close> is an argument of every
  operation that reads the clock.
\<close>

type_synonym ip = nat
type_synonym time = int

text \<open>
  The resource records of \<^verbatim>\<open>msg.Answer\<close>: the type switch of \<^verbatim>\<open>SetRealIP\<close> tells a
  \<^verbatim>\<open>*dns.A\<close> (with its field \<^verbatim>\<open>A\<close>, a \<^verbatim>\<open>net.IP\<close>) from every other record type,
  kept here by its type number.
\<close>

datatype RR = RR_A "ip option" | RR_Other nat

record Msg =
  Answer :: "RR list"

fun is_A :: "RR \<Rightarrow> bool" where
  "is_A (RR_A a) = True"
| "is_A (RR_Other t) = False"

text \<open>The forged answer \<^verbatim>\<open>*dns.A\<close> cached in a record.\<close>

record dns_A =
  Hdr_Name :: string
  Hdr_Ttl :: int
  A :: "ip option"

subsection \<open>DomainRecord\<close>

record DomainRecord =
  Hostname :: string
  Proxy :: string
  IP :: ip
  RealIP :: "ip option"
  Hits :: int
  Expires :: time
  answer :: dns_A

text \<open>
  The loop of \<^verbatim>\<open>SetRealIP\<close> over \<^verbatim>\<open>msg.Answer\<close>, with the local \<^verbatim>\<open>ip\<close> as
  accumulator. The \<^verbatim>\<open>break\<close> of the source stands inside the \<^verbatim>\<open>switch\<close>, so it
  leaves the switch and not the \<^verbatim>\<open>for\<close>: the loop goes on to the next item.
\<close>

fun scan_answers :: "RR list \<Rightarrow> ip option \<Rightarrow> ip option" where
  "scan_answers [] ip = ip"
| "scan_answers (item # rest) ip =
     (case item of
        RR_A a \<Rightarrow> scan_answers rest a
      | RR_Other t \<Rightarrow> scan_answers rest ip)"

definition SetRealIP :: "DomainRecord \<Rightarrow> Msg \<Rightarrow> DomainRecord" where
  "SetRealIP record msg =
     (if RealIP record \<noteq> None then record
      else record\<lparr>RealIP := scan_answers (Answer msg) None\<rparr>)"

text \<open>
  \<^verbatim>\<open>Touch\<close>: one more hit, and the expiry moved to now plus
  \<^verbatim>\<open>configure.DNSDefaultTTL\<close> seconds. The constant lives in a package that is not
  part of the sources, so it is the parameter \<open>ttl\<close>.
\<close>

definition Touch :: "int \<Rightarrow> time \<Rightarrow> DomainRecord \<Rightarrow> DomainRecord" where
  "Touch ttl now record = record\<lparr>Hits := Hits record + 1, Expires := now + ttl\<rparr>"

subsection \<open>The address pool\<close>

text \<open>
  Modelled from the spec: the type \<^verbatim>\<open>DNSIPPool\<close> (dns_ip_pool.go) is not among the
  sources. The spec gives it a reserved subnet with its usable host addresses (network
  and gateway excluded), a capacity, and bookkeeping "sufficient to guarantee no address
  is handed out twice while outstanding". \<open>usable\<close> lists the usable addresses,
  \<open>allocated\<close> the outstanding ones; \<open>policy\<close> is the allocator's choice among the
  free addresses, which the spec leaves open (every theorem holds for every policy).
\<close>

record DNSIPPool =
  usable :: "ip list"
  allocated :: "ip list"
  policy :: "string \<Rightarrow> ip list \<Rightarrow> nat"

text \<open>
  Modelled from the spec: the free addresses of the pool, those usable and not
  outstanding.
\<close>

definition free :: "DNSIPPool \<Rightarrow> ip list" where
  "free pool = filter (\<lambda>a. a \<notin> set (allocated pool)) (usable pool)"

text \<open>
  Modelled from the spec: \<^verbatim>\<open>Alloc(domain)\<close> "returns a free address from the subnet
  [...]; fails (returns none/nil) when no free address remains". The pool is returned
  as the call leaves it.
\<close>

definition Alloc :: "DNSIPPool \<Rightarrow> string \<Rightarrow> ip option \<times> DNSIPPool" where
  "Alloc pool domain =
     (if free pool = [] then (None, pool)
      else let a = free pool ! (policy pool domain (free pool) mod length (free pool))
           in (Some a, pool\<lparr>allocated := a # allocated pool\<rparr>))"

text \<open>
  Modelled from the spec: \<^verbatim>\<open>Release(address)\<close> "returns the address to the free set".
\<close>

definition Release :: "DNSIPPool \<Rightarrow> ip \<Rightarrow> DNSIPPool" where
  "Release pool a = pool\<lparr>allocated := removeAll a (allocated pool)\<rparr>"

text \<open>
  Modelled from the spec: \<^verbatim>\<open>Capacity()\<close>, the "total usable addresses in the subnet",
  a Go \<^verbatim>\<open>int\<close>.
\<close>

definition Capacity :: "DNSIPPool \<Rightarrow> int" where
  "Capacity pool = int (length (usable pool))"

text \<open>
  Modelled from the spec: \<^verbatim>\<open>Contains(address)\<close>, the "membership test against the
  reserved subnet (not against currently allocated)".
\<close>

definition Contains :: "DNSIPPool \<Rightarrow> ip \<Rightarrow> bool" where
  "Contains pool a \<longleftrightarrow> a \<in> set (usable pool)"

subsection \<open>DNSTable\<close>

text \<open>
  The two Go maps guarded by \<^verbatim>\<open>recordsLock\<close> and the map guarded by \<^verbatim>\<open>npdLock\<close>
  are association lists: \<^verbatim>\<open>m[k]\<close> is \<open>map_of\<close>, \<^verbatim>\<open>m[k] = v\<close> is \<open>AList.update\<close>,
  \<^verbatim>\<open>delete(m, k)\<close> is \<open>AList.delete\<close>, and the order of the list is the order in which
  a \<^verbatim>\<open>range\<close> loop visits the entries (Go leaves that order open; the theorems below
  hold for every order). The keys of \<open>ip2Domain\<close> are the addresses themselves,
  standing for their \<^verbatim>\<open>String()\<close> form. The map \<open>records\<close> holds pointers; the table
  is the only owner of a record, so the record is stored by value and a mutation through
  the pointer is an update of the entry. Every exported operation holds its lock from
  entry to return, so each is one atomic step on the table.
\<close>

record DNSTable =
  ipPool :: DNSIPPool
  records :: "(string \<times> DomainRecord) list"
  ip2Domain :: "(ip \<times> string) list"
  nonProxyDomains :: "(string \<times> time) list"

text \<open>What the operations hand to \<^verbatim>\<open>log.Printf\<close> and \<^verbatim>\<open>log.Println\<close>.\<close>

datatype log_line =
    LogIPSpaceUsedUp string
  | LogHijack string ip
  | LogRelease string ip int
  | LogReleaseNonProxy string
  | LogReloaded

definition NewDnsTable :: "DNSIPPool \<Rightarrow> DNSTable" where
  "NewDnsTable pool =
     \<lparr>ipPool = pool, records = [], ip2Domain = [], nonProxyDomains = []\<rparr>"

definition get :: "int \<Rightarrow> time \<Rightarrow> DNSTable \<Rightarrow> string \<Rightarrow> DomainRecord option \<times> DNSTable" where
  "get ttl now c domain =
     (case map_of (records c) domain of
        None \<Rightarrow> (None, c)
      | Some record \<Rightarrow>
          (let record' = Touch ttl now record
           in (Some record', c\<lparr>records := AList.update domain record' (records c)\<rparr>)))"

definition GetByIP :: "int \<Rightarrow> time \<Rightarrow> DNSTable \<Rightarrow> ip \<Rightarrow> DomainRecord option \<times> DNSTable" where
  "GetByIP ttl now c a =
     (case map_of (ip2Domain c) a of
        Some domain \<Rightarrow> get ttl now c domain
      | None \<Rightarrow> (None, c))"

definition Get :: "int \<Rightarrow> time \<Rightarrow> DNSTable \<Rightarrow> string \<Rightarrow> DomainRecord option \<times> DNSTable" where
  "Get ttl now c domain = get ttl now c domain"

text \<open>
  \<^verbatim>\<open>dns.Fqdn\<close> of the DNS library appends the root dot to a name that lacks it.
\<close>

definition Fqdn :: "string \<Rightarrow> string" where
  "Fqdn s = (if s \<noteq> [] \<and> last s = CHR ''.'' then s else s @ ''.'')"

definition ForgeIPv4Answer :: "int \<Rightarrow> string \<Rightarrow> ip \<Rightarrow> dns_A" where
  "ForgeIPv4Answer ttl domain a = \<lparr>Hdr_Name = Fqdn domain, Hdr_Ttl = ttl, A = Some a\<rparr>"

text \<open>
  \<^verbatim>\<open>Set\<close> returns the record (\<open>None\<close> for \<^verbatim>\<open>nil\<close>), the table as the call leaves it
  and the lines it logged. \<^verbatim>\<open>new(DomainRecord)\<close> is the zero record, filled in field
  by field and then touched.
\<close>

definition Set ::
  "int \<Rightarrow> time \<Rightarrow> DNSTable \<Rightarrow> string \<Rightarrow> string \<Rightarrow> DomainRecord option \<times> DNSTable \<times> log_line list"
where
  "Set ttl now c domain proxy =
     (case map_of (records c) domain of
        Some record \<Rightarrow> (Some record, c, [])
      | None \<Rightarrow>
          (case Alloc (ipPool c) domain of
             (None, pool') \<Rightarrow> (None, c\<lparr>ipPool := pool'\<rparr>, [LogIPSpaceUsedUp domain])
           | (Some a, pool') \<Rightarrow>
               (let record = Touch ttl now
                      \<lparr>Hostname = domain, Proxy = proxy, IP = a, RealIP = None, Hits = 0,
                       Expires = 0, answer = ForgeIPv4Answer ttl domain a\<rparr>
                in (Some record,
                    c\<lparr>ipPool := pool',
                      records := AList.update domain record (records c),
                      ip2Domain := AList.update a domain (ip2Domain c)\<rparr>,
                    [LogHijack domain a]))))"

definition IsNonProxyDomain :: "DNSTable \<Rightarrow> string \<Rightarrow> bool" where
  "IsNonProxyDomain c domain \<longleftrightarrow> map_of (nonProxyDomains c) domain \<noteq> None"

definition SetNonProxyDomain :: "time \<Rightarrow> DNSTable \<Rightarrow> string \<Rightarrow> int \<Rightarrow> DNSTable" where
  "SetNonProxyDomain now c domain ttl =
     c\<lparr>nonProxyDomains := AList.update domain (now + ttl) (nonProxyDomains c)\<rparr>"

text \<open>
  The \<^verbatim>\<open>range\<close> loops delete only the entry they are visiting, so each is a fold over
  the entries the map held when the loop began. The state of a loop is the table and the
  lines logged so far.
\<close>

fun npd_step :: "time \<Rightarrow> string \<times> time \<Rightarrow> DNSTable \<times> log_line list \<Rightarrow> DNSTable \<times> log_line list" where
  "npd_step now (domain, expired) (c, out) =
     (if expired < now
      then (c\<lparr>nonProxyDomains := AList.delete domain (nonProxyDomains c)\<rparr>,
            out @ [LogReleaseNonProxy domain])
      else (c, out))"

definition clearExpiredNonProxyDomain :: "time \<Rightarrow> DNSTable \<Rightarrow> DNSTable \<times> log_line list" where
  "clearExpiredNonProxyDomain now c = fold (npd_step now) (nonProxyDomains c) (c, [])"

fun sweep_step :: "time \<Rightarrow> string \<times> DomainRecord \<Rightarrow> DNSTable \<times> log_line list \<Rightarrow> DNSTable \<times> log_line list" where
  "sweep_step now (domain, record) (c, out) =
     (if \<not> Expires record < now then (c, out)
      else (c\<lparr>records := AList.delete domain (records c),
              ip2Domain := AList.delete (IP record) (ip2Domain c),
              ipPool := Release (ipPool c) (IP record)\<rparr>,
            out @ [LogRelease domain (IP record) (Hits record)]))"

definition threshold :: "DNSTable \<Rightarrow> int" where
  "threshold c =
     (let t = 1000
      in if t > Capacity (ipPool c) div 10 then Capacity (ipPool c) div 10 else t)"

definition clearExpiredDomain :: "time \<Rightarrow> DNSTable \<Rightarrow> DNSTable \<times> log_line list" where
  "clearExpiredDomain now c =
     (if int (length (records c)) \<le> threshold c then (c, [])
      else fold (sweep_step now) (records c) (c, []))"

text \<open>One tick of the loop of \<^verbatim>\<open>Serve\<close>: both sweeps, at the tick's time.\<close>

definition tick :: "time \<Rightarrow> DNSTable \<Rightarrow> DNSTable \<times> log_line list" where
  "tick now c =
     (let (c1, out1) = clearExpiredDomain now c;
          (c2, out2) = clearExpiredNonProxyDomain now c1
      in (c2, out1 @ out2))"

fun reload_npd_step :: "string \<times> time \<Rightarrow> DNSTable \<Rightarrow> DNSTable" where
  "reload_npd_step (domain, expired) c =
     c\<lparr>nonProxyDomains := AList.delete domain (nonProxyDomains c)\<rparr>"

fun reload_step :: "string \<times> DomainRecord \<Rightarrow> DNSTable \<Rightarrow> DNSTable" where
  "reload_step (domain, record) c =
     c\<lparr>records := AList.delete domain (records c),
       ip2Domain := AList.delete (IP record) (ip2Domain c),
       ipPool := Release (ipPool c) (IP record)\<rparr>"

text \<open>
  \<^verbatim>\<open>Reload\<close> never reads its two arguments, the new address and subnet; they are kept
  as \<open>a\<close> and \<open>subnet\<close> (base address and prefix length).
\<close>

definition Reload :: "DNSTable \<Rightarrow> ip \<Rightarrow> ip \<times> nat \<Rightarrow> DNSTable \<times> log_line list" where
  "Reload c a subnet =
     (let c1 = fold reload_npd_step (nonProxyDomains c) c
      in (fold reload_step (records c1) c1, [LogReloaded]))"

subsection \<open>Executions of the table\<close>

text \<open>
  The operations a caller can run on a table, each with the clock reading it sees.
  \<open>OpSetRealIP\<close> is a caller that holds the pointer of the live record of a domain
  (handed out by \<^verbatim>\<open>Set\<close>, \<^verbatim>\<open>Get\<close> or \<^verbatim>\<open>GetByIP\<close>) and calls \<^verbatim>\<open>SetRealIP\<close> on it.
\<close>

datatype table_op =
    OpSet time string string
  | OpGet time string
  | OpGetByIP time ip
  | OpTick time
  | OpReload ip "ip \<times> nat"
  | OpSetNonProxyDomain time string int
  | OpSetRealIP string Msg

fun apply_op :: "int \<Rightarrow> table_op \<Rightarrow> DNSTable \<Rightarrow> DNSTable" where
  "apply_op ttl (OpSet now domain proxy) c = fst (snd (Set ttl now c domain proxy))"
| "apply_op ttl (OpGet now domain) c = snd (Get ttl now c domain)"
| "apply_op ttl (OpGetByIP now a) c = snd (GetByIP ttl now c a)"
| "apply_op ttl (OpTick now) c = fst (tick now c)"
| "apply_op ttl (OpReload a subnet) c = fst (Reload c a subnet)"
| "apply_op ttl (OpSetNonProxyDomain now domain secs) c = SetNonProxyDomain now c domain secs"
| "apply_op ttl (OpSetRealIP domain msg) c =
     (case map_of (records c) domain of
        None \<Rightarrow> c
      | Some r \<Rightarrow> c\<lparr>records := AList.update domain (SetRealIP r msg) (records c)\<rparr>)"

definition run_ops :: "int \<Rightarrow> table_op list \<Rightarrow> DNSTable \<Rightarrow> DNSTable" where
  "run_ops ttl ops c = fold (apply_op ttl) ops c"

subsection \<open>The invariant of the table\<close>

text \<open>
  The property of the spec: the reverse index maps the address of every live record back
  to its hostname, and no two live records share an address.
\<close>

definition bijection_inv :: "DNSTable \<Rightarrow> bool" where
  "bijection_inv c \<longleftrightarrow>
     (\<forall>(domain, r) \<in> set (records c). map_of (ip2Domain c) (IP r) = Some (Hostname r)) \<and>
     distinct (map (\<lambda>(domain, r). IP r) (records c))"

text \<open>
  The invariant the operations keep. Beyond \<open>bijection_inv\<close>: the keys of \<open>records\<close>
  are distinct (the list is a map, and its length is \<^verbatim>\<open>len(c.records)\<close>), a record is
  filed under its own hostname, its address is a usable address that the pool counts as
  outstanding, and the reverse index holds no entry without its live record.
\<close>

definition table_inv :: "DNSTable \<Rightarrow> bool" where
  "table_inv c \<longleftrightarrow>
     distinct (map fst (records c)) \<and>
     (\<forall>(domain, r) \<in> set (records c).
        Hostname r = domain \<and> IP r \<in> set (allocated (ipPool c)) \<and>
        IP r \<in> set (usable (ipPool c))) \<and>
     (\<forall>(a, domain) \<in> set (ip2Domain c).
        case map_of (records c) domain of Some r \<Rightarrow> IP r = a | None \<Rightarrow> False) \<and>
     bijection_inv c"

text \<open>The records a sweep at time \<open>now\<close> finds expired.\<close>

definition expired :: "time \<Rightarrow> (string \<times> DomainRecord) list \<Rightarrow> (string \<times> DomainRecord) list" where
  "expired now xs = filter (\<lambda>(domain, r). Expires r < now) xs"

subsection \<open>Example tables\<close>

text \<open>
  A pool of four usable addresses whose allocator takes the free address numbered by
  the length of the domain name, and a pool of a hundred that takes the first free one.
\<close>

definition pool4 :: DNSIPPool where
  "pool4 = \<lparr>usable = [2, 3, 4, 5], allocated = [], policy = (\<lambda>domain fr. length domain)\<rparr>"

definition pool100 :: DNSIPPool where
  "pool100 = \<lparr>usable = [2 ..< 102], allocated = [], policy = (\<lambda>domain fr. 0)\<rparr>"

text \<open>A table with two hijacked domains, built by the operations themselves.\<close>

definition table2 :: DNSTable where
  "table2 = run_ops 60 [OpSet 0 ''a.example'' ''proxy1'', OpSet 5 ''bb.example'' ''block'']
              (NewDnsTable pool4)"

text \<open>The same table with all four addresses of the pool handed out.\<close>

definition table4 :: DNSTable where
  "table4 = run_ops 60 [OpSet 6 ''ccc.example'' ''proxy1'', OpSet 7 ''dddd.example'' ''proxy1'']
              table2"

text \<open>A record as \<^verbatim>\<open>Set\<close> builds it, with no real address observed yet.\<close>

definition record0 :: DomainRecord where
  "record0 = \<lparr>Hostname = ''a.example'', Proxy = ''proxy1'', IP = 3, RealIP = None, Hits = 1,
               Expires = 60, answer = ForgeIPv4Answer 60 ''a.example'' 3\<rparr>"

text \<open>
  Tables over the pool of capacity 100 with \<open>n\<close> records, all expiring at time 60:
  the state that \<^verbatim>\<open>Set\<close> at time 0 reaches from the empty table for the domains
  \<open>a\<close>, \<open>aa\<close>, \<open>aaa\<close>, ..., written out.
\<close>

definition name_of :: "nat \<Rightarrow> string" where
  "name_of i = replicate (Suc i) CHR ''a''"

definition record_of :: "nat \<Rightarrow> DomainRecord" where
  "record_of i = \<lparr>Hostname = name_of i, Proxy = ''proxy1'', IP = 2 + i, RealIP = None,
                   Hits = 1, Expires = 60, answer = ForgeIPv4Answer 60 (name_of i) (2 + i)\<rparr>"

definition table_of :: "nat \<Rightarrow> DNSTable" where
  "table_of n =
     \<lparr>ipPool = pool100\<lparr>allocated := rev (map (\<lambda>i. 2 + i) [0 ..< n])\<rparr>,
      records = map (\<lambda>i. (name_of i, record_of i)) [0 ..< n],
      ip2Domain = map (\<lambda>i. (2 + i, name_of i)) [0 ..< n],
      nonProxyDomains = []\<rparr>"

section \<open>The TCP tunnel (package tun2socks)\<close>

subsection \<open>Status, errors and effects\<close>

text \<open>
  Modelled from the spec: the type \<^verbatim>\<open>TunnelStatus\<close> and its constants are declared in a
  file that is not among the sources, which name only \<^verbatim>\<open>StatusProxying\<close> and
  \<^verbatim>\<open>StatusClosed\<close>. The spec gives each side the states "Unset -> Proxying -> Closed";
  \<open>StatusUnset\<close> is the zero value a tunnel has before \<^verbatim>\<open>Run\<close> sets its status.
\<close>

datatype TunnelStatus = StatusUnset | StatusProxying | StatusClosed

text \<open>
  A Go \<^verbatim>\<open>error\<close> is kept by its message. The errors of the network stack are values of
  \<^verbatim>\<open>*tcpip.Error\<close>, of which the pumps name three; any other is kept by its message.
\<close>

type_synonym error = string
type_synonym bytes = "nat list"

datatype tcpip_Error = ErrWouldBlock | ErrClosedForSend | ErrClosedForReceive | ErrOther string

fun tcpip_String :: "tcpip_Error \<Rightarrow> string" where
  "tcpip_String ErrWouldBlock = ''operation would block''"
| "tcpip_String ErrClosedForSend = ''endpoint is closed for send''"
| "tcpip_String ErrClosedForReceive = ''endpoint is closed for receive''"
| "tcpip_String (ErrOther s) = s"

text \<open>
  The classifiers of package \<^verbatim>\<open>util\<close>, which is not among the sources, are parameters
  of the pumps: nothing is assumed about which errors they accept.
\<close>

record util =
  IsTimeout :: "error \<Rightarrow> bool"
  IsConnectionReset :: "error \<Rightarrow> bool"
  IsEOF :: "error \<Rightarrow> bool"
  IsBrokenPipe :: "error \<Rightarrow> bool"
  IsClosed :: "tcpip_Error \<Rightarrow> bool"

text \<open>
  What a tunnel does to the world outside it, in the order it does it: the lines it
  logs, and its calls on the cancel function, the local endpoint and the remote
  connection.
\<close>

datatype deadline = IdleTimeout | WithoutTimeout

datatype event =
    LogError error
  | LogTcpipError tcpip_Error
  | LogClosedReason error string
  | CtxCancel
  | LocalClose
  | RemoteClose
  | RemoteSetReadDeadline deadline
  | LocalWrite bytes
  | RemoteWrite bytes
  | EventRegister
  | EventUnregister

fun is_log :: "event \<Rightarrow> bool" where
  "is_log (LogError e) = True"
| "is_log (LogTcpipError e) = True"
| "is_log (LogClosedReason e a) = True"
| "is_log ev = False"

fun is_reason_log :: "event \<Rightarrow> bool" where
  "is_reason_log (LogClosedReason e a) = True"
| "is_reason_log ev = False"

subsection \<open>TCPTunnel\<close>

text \<open>
  The fields of the struct that the methods read or write. \<open>ctx\<close> stands for the pair
  \<^verbatim>\<open>ctx\<close>, \<^verbatim>\<open>ctxCancel\<close>: \<open>None\<close> while both are \<^verbatim>\<open>nil\<close> (until \<^verbatim>\<open>Run\<close> creates
  them), \<open>Some False\<close> for a live context and \<open>Some True\<close> for a cancelled one.
  \<open>closeOne\<close> is the \<^verbatim>\<open>sync.Once\<close>, true once its \<^verbatim>\<open>Do\<close> has run. \<open>effects\<close> is not a
  field: it records the events of the tunnel, latest last. The two mutexes guard single
  reads and writes of the status fields, which are atomic steps here.
\<close>

record TCPTunnel =
  localEndpointStatus :: TunnelStatus
  remoteStatus :: TunnelStatus
  remoteAddr :: string
  ctx :: "bool option"
  closeOne :: bool
  effects :: "event list"

text \<open>
  The tunnel that \<^verbatim>\<open>NewTCP2Socks\<close> returns when the dial has succeeded: the struct
  literal names the endpoint, the connection, the address, the mutexes and the app; every
  other field has its zero value.
\<close>

definition NewTCP2Socks :: "string \<Rightarrow> TCPTunnel" where
  "NewTCP2Socks addr =
     \<lparr>localEndpointStatus = StatusUnset, remoteStatus = StatusUnset, remoteAddr = addr,
      ctx = None, closeOne = False, effects = []\<rparr>"

definition emit :: "event list \<Rightarrow> TCPTunnel \<Rightarrow> TCPTunnel" where
  "emit evs t = t\<lparr>effects := effects t @ evs\<rparr>"

definition SetRemoteStatus :: "TunnelStatus \<Rightarrow> TCPTunnel \<Rightarrow> TCPTunnel" where
  "SetRemoteStatus s t = t\<lparr>remoteStatus := s\<rparr>"

definition RemoteStatus :: "TCPTunnel \<Rightarrow> TunnelStatus" where
  "RemoteStatus t = remoteStatus t"

definition SetLocalEndpointStatus :: "TunnelStatus \<Rightarrow> TCPTunnel \<Rightarrow> TCPTunnel" where
  "SetLocalEndpointStatus s t = t\<lparr>localEndpointStatus := s\<rparr>"

definition LocalEndpointStatus :: "TCPTunnel \<Rightarrow> TunnelStatus" where
  "LocalEndpointStatus t = localEndpointStatus t"

text \<open>
  A call of a \<^verbatim>\<open>nil\<close> function value, or of a method on a \<^verbatim>\<open>nil\<close> interface, panics.
  A panic is returned with the tunnel as it was when it struck.
\<close>

datatype panic = NilDereference

type_synonym 'a result = "(panic \<times> TCPTunnel) + 'a"

text \<open>
  \<^verbatim>\<open>Close\<close>: \<^verbatim>\<open>closeOne.Do\<close> runs its function on the first call only, and counts the
  call as done when the function panics as well; callers that arrive while it runs wait
  for it, so a \<^verbatim>\<open>Close\<close> is one step. The function logs a reason that is not \<^verbatim>\<open>nil\<close>,
  sets both statuses, calls \<^verbatim>\<open>ctxCancel\<close> (a panic while it is \<^verbatim>\<open>nil\<close>) and closes the
  local endpoint and the remote connection.
\<close>

definition Close :: "error option \<Rightarrow> TCPTunnel \<Rightarrow> TCPTunnel result" where
  "Close reason t =
     (if closeOne t then Inr t
      else
        (let t1 = t\<lparr>closeOne := True\<rparr>;
             t2 = (case reason of
                     None \<Rightarrow> t1
                   | Some e \<Rightarrow> emit [LogClosedReason e (remoteAddr t1)] t1);
             t3 = SetLocalEndpointStatus StatusClosed t2;
             t4 = SetRemoteStatus StatusClosed t3
         in case ctx t4 of
              None \<Rightarrow> Inl (NilDereference, t4)
            | Some cancelled \<Rightarrow>
                Inr (emit [LocalClose, RemoteClose] (emit [CtxCancel] (t4\<lparr>ctx := Some True\<rparr>)))))"

text \<open>A sequence of calls of \<^verbatim>\<open>Close\<close>, one reason each; a panic ends it.\<close>

fun Close_all :: "error option list \<Rightarrow> TCPTunnel \<Rightarrow> TCPTunnel result" where
  "Close_all [] t = Inr t"
| "Close_all (reason # rest) t =
     (case Close reason t of
        Inl p \<Rightarrow> Inl p
      | Inr t' \<Rightarrow> Close_all rest t')"

subsection \<open>The pumps\<close>

text \<open>
  A pump runs against a script of what its blocking calls return: for the remote-to-local
  pump the results of \<^verbatim>\<open>remoteConn.Read\<close> (the bytes \<^verbatim>\<open>buf[0:n]\<close> and the error) and of
  \<^verbatim>\<open>localEndpoint.Write\<close> (the count and the error). A pump ends by returning, by a
  panic, or blocked in a call for which the script holds no result. Each function is the
  pump running with no step of another goroutine in between.
\<close>

datatype pump_end = Returned | Blocked | Panicked panic

datatype loop_end = NextRead | BreakOuter | LoopBlocked | LoopPanicked panic

type_synonym read_result = "bytes \<times> error option"
type_synonym write_result = "nat \<times> tcpip_Error option"

text \<open>What a pump does after a \<^verbatim>\<open>Close\<close> on one of its error paths: it leaves its loop.\<close>

definition close_and_break :: "TCPTunnel result \<Rightarrow> loop_end \<times> TCPTunnel" where
  "close_and_break r =
     (case r of Inl (p, t) \<Rightarrow> (LoopPanicked p, t) | Inr t \<Rightarrow> (BreakOuter, t))"

definition close_and_return :: "TCPTunnel result \<Rightarrow> pump_end \<times> TCPTunnel" where
  "close_and_return r =
     (case r of Inl (p, t) \<Rightarrow> (Panicked p, t) | Inr t \<Rightarrow> (Returned, t))"

text \<open>The loop \<^verbatim>\<open>writeAllPacket\<close> of \<^verbatim>\<open>readFromRemoteWriteToLocal\<close>.\<close>

fun writeAllPacket_local ::
  "util \<Rightarrow> write_result list \<Rightarrow> bytes \<Rightarrow> TCPTunnel \<Rightarrow> (loop_end \<times> TCPTunnel) \<times> write_result list"
where
  "writeAllPacket_local U [] chunk t =
     (if length chunk \<le> 0 then ((NextRead, t), []) else ((LoopBlocked, t), []))"
| "writeAllPacket_local U ((m, err) # ws) chunk t =
     (if length chunk \<le> 0 then ((NextRead, t), (m, err) # ws)
      else
        (let t1 = emit [LocalWrite chunk] t; n = m
         in case err of
              Some e \<Rightarrow>
                if e = ErrWouldBlock \<and> n < length chunk
                then writeAllPacket_local U ws (drop n chunk) t1
                else if e = ErrClosedForSend \<or> e = ErrClosedForReceive
                then ((BreakOuter, t1), ws)
                else if IsClosed U e then (close_and_break (Close None t1), ws)
                else (close_and_break
                        (Close (Some (tcpip_String e)) (emit [LogTcpipError e] t1)), ws)
            | None \<Rightarrow>
                if n < length chunk then writeAllPacket_local U ws (drop n chunk) t1
                else ((NextRead, t1), ws)))"

text \<open>
  The statements of \<^verbatim>\<open>readFromRemoteWriteToLocal\<close> that follow the return of
  \<^verbatim>\<open>remoteConn.Read\<close> with an error.
\<close>

definition remote_read_failed :: "util \<Rightarrow> error \<Rightarrow> TCPTunnel \<Rightarrow> pump_end \<times> TCPTunnel" where
  "remote_read_failed U e t =
     (if \<not> IsTimeout U e \<and> \<not> IsConnectionReset U e \<and> \<not> IsEOF U e
      then close_and_return (Close (Some e) (emit [LogError e] t))
      else close_and_return (Close None t))"

fun readFromRemoteWriteToLocal ::
  "util \<Rightarrow> read_result list \<Rightarrow> write_result list \<Rightarrow> TCPTunnel \<Rightarrow> pump_end \<times> TCPTunnel"
where
  "readFromRemoteWriteToLocal U rs ws t =
     (case ctx t of
        None \<Rightarrow> (Panicked NilDereference, t)
      | Some True \<Rightarrow> (Returned, t)
      | Some False \<Rightarrow>
          (let t1 = emit [RemoteSetReadDeadline IdleTimeout] t
           in case rs of
                [] \<Rightarrow> (Blocked, t1)
              | (buf, err) # rs' \<Rightarrow>
                  (case err of
                     Some e \<Rightarrow> remote_read_failed U e t1
                   | None \<Rightarrow>
                       (let t2 = emit [RemoteSetReadDeadline WithoutTimeout] t1
                        in if length buf > 0 \<and> RemoteStatus t2 \<noteq> StatusClosed
                           then (case writeAllPacket_local U ws buf t2 of
                                   ((NextRead, t3), ws') \<Rightarrow>
                                     readFromRemoteWriteToLocal U rs' ws' t3
                                 | ((BreakOuter, t3), ws') \<Rightarrow> (Returned, t3)
                                 | ((LoopBlocked, t3), ws') \<Rightarrow> (Blocked, t3)
                                 | ((LoopPanicked p, t3), ws') \<Rightarrow> (Panicked p, t3))
                           else (Returned, t2)))))"

text \<open>
  The local-to-remote pump. Its script holds the results of \<^verbatim>\<open>localEndpoint.Read\<close> (the
  view and the error) and of \<^verbatim>\<open>remoteConn.Write\<close> (the count and the error). After a
  read that would block the pump waits for the cancellation or for a notification; with
  no other goroutine running the context is still live, so the wait ends with the
  notification and the next read.
\<close>

type_synonym local_read_result = "bytes \<times> tcpip_Error option"
type_synonym remote_write_result = "nat \<times> error option"

fun writeAllPacket_remote ::
  "util \<Rightarrow> remote_write_result list \<Rightarrow> bytes \<Rightarrow> TCPTunnel \<Rightarrow>
   (loop_end \<times> TCPTunnel) \<times> remote_write_result list"
where
  "writeAllPacket_remote U [] v t =
     (if length v \<le> 0 then ((NextRead, t), []) else ((LoopBlocked, t), []))"
| "writeAllPacket_remote U ((n, err) # ws) v t =
     (if length v \<le> 0 then ((NextRead, t), (n, err) # ws)
      else
        (let t1 = emit [RemoteWrite v] t
         in case err of
              Some e \<Rightarrow>
                if IsBrokenPipe U e \<or> IsEOF U e then (close_and_break (Close None t1), ws)
                else (close_and_break (Close (Some e) (emit [LogError e] t1)), ws)
            | None \<Rightarrow>
                if n < length v then writeAllPacket_remote U ws (drop n v) t1
                else ((NextRead, t1), ws)))"

definition local_read_failed :: "util \<Rightarrow> tcpip_Error \<Rightarrow> TCPTunnel \<Rightarrow> pump_end \<times> TCPTunnel" where
  "local_read_failed U e t =
     (if e = ErrClosedForSend \<or> e = ErrClosedForReceive then (Returned, t)
      else if IsClosed U e then close_and_return (Close None t)
      else close_and_return
             (Close (Some (''read from local failed, '' @ tcpip_String e))
                (emit [LogTcpipError e] t)))"

fun local_loop ::
  "util \<Rightarrow> local_read_result list \<Rightarrow> remote_write_result list \<Rightarrow> TCPTunnel \<Rightarrow>
   pump_end \<times> TCPTunnel"
where
  "local_loop U rs ws t =
     (case ctx t of
        None \<Rightarrow> (Panicked NilDereference, t)
      | Some True \<Rightarrow> (Returned, t)
      | Some False \<Rightarrow>
          (case rs of
             [] \<Rightarrow> (Blocked, t)
           | (v, err) # rs' \<Rightarrow>
               (case err of
                  Some e \<Rightarrow>
                    if e = ErrWouldBlock then local_loop U rs' ws t
                    else local_read_failed U e t
                | None \<Rightarrow>
                    if LocalEndpointStatus t \<noteq> StatusClosed
                    then (case writeAllPacket_remote U ws v t of
                            ((NextRead, t3), ws') \<Rightarrow> local_loop U rs' ws' t3
                          | ((BreakOuter, t3), ws') \<Rightarrow> (Returned, t3)
                          | ((LoopBlocked, t3), ws') \<Rightarrow> (Blocked, t3)
                          | ((LoopPanicked p, t3), ws') \<Rightarrow> (Panicked p, t3))
                    else (Returned, t))))"

text \<open>
  \<^verbatim>\<open>readFromLocalWriteToRemote\<close>: the registration of the wait entry, the loop, and the
  deferred unregistration when the function returns.
\<close>

definition readFromLocalWriteToRemote ::
  "util \<Rightarrow> local_read_result list \<Rightarrow> remote_write_result list \<Rightarrow> TCPTunnel \<Rightarrow>
   pump_end \<times> TCPTunnel"
where
  "readFromLocalWriteToRemote U rs ws t =
     (case local_loop U rs ws (emit [EventRegister] t) of
        (Returned, t') \<Rightarrow> (Returned, emit [EventUnregister] t')
      | (Panicked p, t') \<Rightarrow> (Panicked p, emit [EventUnregister] t')
      | (Blocked, t') \<Rightarrow> (Blocked, t'))"

subsection \<open>Run and its goroutines\<close>

text \<open>
  \<^verbatim>\<open>Run\<close> statement by statement, with the two pumps it starts and callers of
  \<^verbatim>\<open>Close\<close> from outside as further goroutines. \<open>run_pc\<close> counts the statements of
  \<^verbatim>\<open>Run\<close> done so far: 0 before \<^verbatim>\<open>context.WithCancel\<close>, 1 and 2 before the two
  \<^verbatim>\<open>wgw.Wrap\<close>, 3 before \<^verbatim>\<open>SetRemoteStatus\<close>, 4 before \<^verbatim>\<open>SetLocalEndpointStatus\<close>,
  5 before \<^verbatim>\<open>Wait\<close>, 6 before the final \<^verbatim>\<open>Close(nil)\<close>, 7 when \<^verbatim>\<open>Run\<close> has returned. A
  goroutine started by \<^verbatim>\<open>Wrap\<close> may run at any time from then on.
\<close>

datatype pump_state = NotStarted | Started | Finished

record sys =
  tun :: TCPTunnel
  run_pc :: nat
  remote_pump :: pump_state
  local_pump :: pump_state

text \<open>
  The steps a schedule is made of: the next statement of \<^verbatim>\<open>Run\<close>, a started pump
  running from its first statement to its return against a script, or a call of
  \<^verbatim>\<open>Close\<close> by another goroutine. \<open>None\<close> is a step that cannot be taken: a statement
  of \<^verbatim>\<open>Run\<close> that is not enabled (\<^verbatim>\<open>Wait\<close> before both pumps have returned), a pump that
  is not running or that the script does not take to its return, or a panic.
\<close>

datatype action =
    RunStep
  | RemotePump "read_result list" "write_result list"
  | LocalPump "local_read_result list" "remote_write_result list"
  | CallClose "error option"

definition run_step :: "sys \<Rightarrow> sys option" where
  "run_step s =
     (if run_pc s = 0 then Some (s\<lparr>tun := (tun s)\<lparr>ctx := Some False\<rparr>, run_pc := 1\<rparr>)
      else if run_pc s = 1 then Some (s\<lparr>remote_pump := Started, run_pc := 2\<rparr>)
      else if run_pc s = 2 then Some (s\<lparr>local_pump := Started, run_pc := 3\<rparr>)
      else if run_pc s = 3
      then Some (s\<lparr>tun := SetRemoteStatus StatusProxying (tun s), run_pc := 4\<rparr>)
      else if run_pc s = 4
      then Some (s\<lparr>tun := SetLocalEndpointStatus StatusProxying (tun s), run_pc := 5\<rparr>)
      else if run_pc s = 5
      then (if remote_pump s = Finished \<and> local_pump s = Finished
            then Some (s\<lparr>run_pc := 6\<rparr>) else None)
      else if run_pc s = 6
      then (case Close None (tun s) of
              Inl p \<Rightarrow> None
            | Inr t \<Rightarrow> Some (s\<lparr>tun := t, run_pc := 7\<rparr>))
      else None)"

fun step :: "util \<Rightarrow> action \<Rightarrow> sys \<Rightarrow> sys option" where
  "step U RunStep s = run_step s"
| "step U (RemotePump rs ws) s =
     (if remote_pump s \<noteq> Started then None
      else case readFromRemoteWriteToLocal U rs ws (tun s) of
             (Returned, t) \<Rightarrow> Some (s\<lparr>tun := t, remote_pump := Finished\<rparr>)
           | (Blocked, t) \<Rightarrow> None
           | (Panicked p, t) \<Rightarrow> None)"
| "step U (LocalPump rs ws) s =
     (if local_pump s \<noteq> Started then None
      else case readFromLocalWriteToRemote U rs ws (tun s) of
             (Returned, t) \<Rightarrow> Some (s\<lparr>tun := t, local_pump := Finished\<rparr>)
           | (Blocked, t) \<Rightarrow> None
           | (Panicked p, t) \<Rightarrow> None)"
| "step U (CallClose reason) s =
     (case Close reason (tun s) of
        Inl p \<Rightarrow> None
      | Inr t \<Rightarrow> Some (s\<lparr>tun := t\<rparr>))"

text \<open>
  The states a schedule passes through, one after each step, up to the first step that
  cannot be taken; and what an observer of the two status fields sees in them.
\<close>

fun states :: "util \<Rightarrow> action list \<Rightarrow> sys \<Rightarrow> sys list" where
  "states U [] s = []"
| "states U (a # as) s =
     (case step U a s of
        None \<Rightarrow> []
      | Some s' \<Rightarrow> s' # states U as s')"

definition observe :: "sys \<Rightarrow> TunnelStatus \<times> TunnelStatus" where
  "observe s = (LocalEndpointStatus (tun s), RemoteStatus (tun s))"

definition start :: "string \<Rightarrow> sys" where
  "start addr =
     \<lparr>tun = NewTCP2Socks addr, run_pc = 0, remote_pump = NotStarted, local_pump = NotStarted\<rparr>"

subsection \<open>Example classifiers\<close>

text \<open>Classifiers that know the errors of the examples by their messages.\<close>

definition util0 :: util where
  "util0 = \<lparr>IsTimeout = (\<lambda>e. e = ''i/o timeout''),
            IsConnectionReset = (\<lambda>e. e = ''connection reset by peer''),
            IsEOF = (\<lambda>e. e = ''EOF''),
            IsBrokenPipe = (\<lambda>e. e = ''broken pipe''),
            IsClosed = (\<lambda>e. e = ErrOther ''endpoint is in invalid state'')\<rparr>"

text \<open>A tunnel in the middle of a relay: \<^verbatim>\<open>Run\<close> has reached its \<^verbatim>\<open>Wait\<close>.\<close>

definition running :: TCPTunnel where
  "running = \<lparr>localEndpointStatus = StatusProxying, remoteStatus = StatusProxying,
              remoteAddr = ''a.example:443'', ctx = Some False, closeOne = False,
              effects = []\<rparr>"

subsection \<open>Example schedules\<close>

text \<open>
  \<^verbatim>\<open>Run\<close> reaches its \<^verbatim>\<open>Wait\<close>; the remote pump reads zero bytes with no error and
  returns; the local pump finds its endpoint closed for receive and returns.
\<close>

definition zero_read_schedule :: "action list" where
  "zero_read_schedule =
     [RunStep, RunStep, RunStep, RunStep, RunStep,
      RemotePump [([], None)] [], LocalPump [([], Some ErrClosedForReceive)] []]"

definition waiting :: sys where
  "waiting = last (states util0 zero_read_schedule (start ''a.example:443''))"

text \<open>
  \<^verbatim>\<open>Run\<close> has started both pumps and not yet set a status when the remote pump runs: its
  first read fails with end of stream and it closes the tunnel. \<^verbatim>\<open>Run\<close> then goes on
  with its two assignments; the local pump finds the context cancelled and returns;
  \<^verbatim>\<open>Run\<close> passes its \<^verbatim>\<open>Wait\<close> and calls \<^verbatim>\<open>Close(nil)\<close>.
\<close>

definition race_schedule :: "action list" where
  "race_schedule =
     [RunStep, RunStep, RunStep, RemotePump [([], Some ''EOF'')] [],
      RunStep, RunStep, LocalPump [] [], RunStep, RunStep]"

section \<open>Properties of the DNS hijack table\<close>

subsection \<open>SetRealIP\<close>

lemma scan_no_A: "list_all (\<lambda>x. \<not> is_A x) xs \<Longrightarrow> scan_answers xs a = a"
  by (induction xs arbitrary: a) (auto split: RR.splits)

lemma scan_append: "scan_answers (xs @ ys) a = scan_answers ys (scan_answers xs a)"
  by (induction xs arbitrary: a) (auto split: RR.splits)

lemma scan_last_A:
  "list_all (\<lambda>x. \<not> is_A x) post \<Longrightarrow> scan_answers (pre @ RR_A a # post) b = a"
  by (simp add: scan_append scan_no_A)

lemma SetRealIP_write_once: "RealIP r \<noteq> None \<Longrightarrow> SetRealIP r msg = r"
  by (simp add: SetRealIP_def)

text \<open>
  Claim C4 (write-once, first IPv4 answer). The write-once half holds
  (\<open>SetRealIP_write_once\<close>). The other half fails: the \<^verbatim>\<open>break\<close> leaves only the
  \<^verbatim>\<open>switch\<close>, the loop runs to the end of the answers, and the address stored is the one
  of the last \<^verbatim>\<open>A\<close> record. For a record with no real address and the answers
  \<^verbatim>\<open>A 10\<close>, another record, \<^verbatim>\<open>A 20\<close>, the field becomes 20 and not 10.
\<close>

theorem SetRealIP_stores_last_A:
  "RealIP (SetRealIP record0 \<lparr>Answer = [RR_A (Some 10), RR_Other 5, RR_A (Some 20)]\<rparr>) = Some 20"
  by (simp add: SetRealIP_def record0_def)

text \<open>
  Claim C9. A record whose real address is unset is left as it is by a message with no
  \<^verbatim>\<open>A\<close> record among its answers: the field stays \<^verbatim>\<open>nil\<close>, the guard does not
  engage, and a later message whose last \<^verbatim>\<open>A\<close> answer carries the address \<open>a\<close> sets
  the field to \<open>a\<close>.
\<close>

theorem SetRealIP_no_A_stays_unset:
  assumes "RealIP r = None"
    and "list_all (\<lambda>x. \<not> is_A x) (Answer msg)"
    and "Answer msg' = pre @ RR_A (Some a) # post"
    and "list_all (\<lambda>x. \<not> is_A x) post"
  shows "RealIP (SetRealIP r msg) = None \<and> SetRealIP r msg = r \<and>
         RealIP (SetRealIP (SetRealIP r msg) msg') = Some a"
  using assms by (simp add: SetRealIP_def scan_no_A scan_last_A)

theorem SetRealIP_no_A_stays_unset_witness:
  "RealIP record0 = None \<and>
   RealIP (SetRealIP record0 \<lparr>Answer = [RR_Other 28, RR_Other 5]\<rparr>) = None \<and>
   RealIP (SetRealIP (SetRealIP record0 \<lparr>Answer = [RR_Other 28, RR_Other 5]\<rparr>)
             \<lparr>Answer = [RR_Other 5, RR_A (Some 20), RR_Other 28]\<rparr>) = Some 20"
proof -
  have unset: "RealIP record0 = None" by (simp add: record0_def)
  have "RealIP (SetRealIP record0 \<lparr>Answer = [RR_Other 28, RR_Other 5]\<rparr>) = None \<and>
        SetRealIP record0 \<lparr>Answer = [RR_Other 28, RR_Other 5]\<rparr> = record0 \<and>
        RealIP (SetRealIP (SetRealIP record0 \<lparr>Answer = [RR_Other 28, RR_Other 5]\<rparr>)
                  \<lparr>Answer = [RR_Other 5, RR_A (Some 20), RR_Other 28]\<rparr>) = Some 20"
    by (rule SetRealIP_no_A_stays_unset [where pre = "[RR_Other 5]" and post = "[RR_Other 28]"])
       (simp_all add: unset)
  with unset show ?thesis by blast
qed

subsection \<open>The pool and the association lists\<close>

lemma table_inv_New: "table_inv (NewDnsTable pool)"
  by (simp add: table_inv_def bijection_inv_def NewDnsTable_def)

lemma Alloc_Some:
  assumes "Alloc pool domain = (Some a, pool')"
  shows "a \<notin> set (allocated pool)" "a \<in> set (usable pool)"
    "pool' = pool\<lparr>allocated := a # allocated pool\<rparr>"
proof -
  let ?f = "free pool"
  from assms have ne: "?f \<noteq> []" by (auto simp: Alloc_def split: if_splits)
  from assms ne have a: "a = ?f ! (policy pool domain ?f mod length ?f)"
    and p: "pool' = pool\<lparr>allocated := a # allocated pool\<rparr>"
    by (auto simp: Alloc_def Let_def)
  from ne have "policy pool domain ?f mod length ?f < length ?f" by simp
  with a have "a \<in> set ?f" by simp
  then show "a \<notin> set (allocated pool)" "a \<in> set (usable pool)" by (auto simp: free_def)
  from p show "pool' = pool\<lparr>allocated := a # allocated pool\<rparr>" .
qed

lemma Alloc_None: "Alloc pool domain = (None, pool') \<Longrightarrow> pool' = pool \<and> free pool = []"
  by (auto simp: Alloc_def Let_def split: if_splits)

lemma update_fresh: "k \<notin> fst ` set al \<Longrightarrow> AList.update k v al = al @ [(k, v)]"
  by (induction al) auto

lemma update_same_image:
  "map_of al k = Some v \<Longrightarrow> f v' = f v \<Longrightarrow>
   map (\<lambda>(d, r). f r) (AList.update k v' al) = map (\<lambda>(d, r). f r) al"
  by (induction al) (auto split: if_splits)

lemma set_update_subset: "set (AList.update k v al) \<subseteq> insert (k, v) (set al)"
  by (induction al) auto

lemma set_delete: "set (AList.delete k al) = {x \<in> set al. fst x \<noteq> k}"
  by (auto simp: AList.delete_eq)

lemma distinct_map_delete:
  "distinct (map f al) \<Longrightarrow> distinct (map f (AList.delete k al))"
  by (simp add: AList.delete_eq distinct_map_filter)


lemma table_inv_Set_new:
  assumes inv: "table_inv c" and none: "map_of (records c) domain = None"
    and al: "Alloc (ipPool c) domain = (Some a, pool')"
    and rec: "Hostname record = domain" "IP record = a"
  shows "table_inv (c\<lparr>ipPool := pool',
                      records := AList.update domain record (records c),
                      ip2Domain := AList.update a domain (ip2Domain c)\<rparr>)"
proof -
  from none have fresh: "domain \<notin> fst ` set (records c)" by (simp add: map_of_eq_None_iff)
  note A = Alloc_Some [OF al]
  have recs: "AList.update domain record (records c) = records c @ [(domain, record)]"
    using fresh by (rule update_fresh)
  have notin: "\<And>d r. (d, r) \<in> set (records c) \<Longrightarrow> IP r \<noteq> a"
    using inv A(1) by (auto simp: table_inv_def)
  have keep: "\<And>d r. map_of (records c) d = Some r \<Longrightarrow>
              map_of (records c @ [(domain, record)]) d = Some r"
    by (simp add: map_add_Some_iff)
  have 1: "distinct (map fst (records c @ [(domain, record)]))"
    using inv fresh by (auto simp: table_inv_def)
  have 2: "\<forall>(d, r) \<in> set (records c @ [(domain, record)]).
             Hostname r = d \<and> IP r \<in> set (allocated pool') \<and> IP r \<in> set (usable pool')"
    using inv rec A by (auto simp: table_inv_def)
  have 3: "\<forall>(a', d) \<in> set (AList.update a domain (ip2Domain c)).
             case map_of (records c @ [(domain, record)]) d of Some r \<Rightarrow> IP r = a' | None \<Rightarrow> False"
  proof (clarify)
    fix a' d assume "(a', d) \<in> set (AList.update a domain (ip2Domain c))"
    then consider "a' = a" "d = domain" | "(a', d) \<in> set (ip2Domain c)"
      using set_update_subset [of a domain "ip2Domain c"] by auto
    then show "case map_of (records c @ [(domain, record)]) d of Some r \<Rightarrow> IP r = a' | None \<Rightarrow> False"
    proof cases
      case 1
      then show ?thesis using none rec by (simp add: map_add_def)
    next
      case 2
      with inv obtain r where "map_of (records c) d = Some r" "IP r = a'"
        by (auto simp: table_inv_def split: option.splits)
      then show ?thesis using keep by simp
    qed
  qed
  have 4: "\<forall>(d, r) \<in> set (records c @ [(domain, record)]).
             map_of (AList.update a domain (ip2Domain c)) (IP r) = Some (Hostname r)"
    using inv rec by (auto simp: table_inv_def bijection_inv_def update_conv' dest: notin)
  have 5: "distinct (map (\<lambda>(d, r). IP r) (records c @ [(domain, record)]))"
    using inv rec by (auto simp: table_inv_def bijection_inv_def dest: notin)
  show ?thesis
    unfolding table_inv_def bijection_inv_def using 1 2 3 4 5 by (simp add: recs)
qed

lemma table_inv_Set: "table_inv c \<Longrightarrow> table_inv (fst (snd (Set ttl now c domain proxy)))"
proof -
  assume inv: "table_inv c"
  show ?thesis
  proof (cases "map_of (records c) domain")
    case (Some r)
    then show ?thesis using inv by (simp add: Set_def)
  next
    case None
    show ?thesis
    proof (cases "Alloc (ipPool c) domain")
      case (Pair res pool')
      show ?thesis
      proof (cases res)
        case N: None
        with Pair have "pool' = ipPool c" by (simp add: Alloc_None)
        then show ?thesis using inv None Pair N by (simp add: Set_def)
      next
        case (Some a)
        with Pair have al: "Alloc (ipPool c) domain = (Some a, pool')" by simp
        show ?thesis using table_inv_Set_new [OF inv None al] None al
          by (simp add: Set_def Touch_def Let_def)
      qed
    qed
  qed
qed


lemma distinct_map_eq:
  "distinct (map f xs) \<Longrightarrow> x \<in> set xs \<Longrightarrow> y \<in> set xs \<Longrightarrow> f x = f y \<Longrightarrow> x = y"
  by (auto simp: distinct_map dest: inj_onD)

lemma table_inv_update_same:
  assumes inv: "table_inv c" and Some: "map_of (records c) domain = Some r"
    and T: "Hostname r' = Hostname r" "IP r' = IP r"
  shows "table_inv (c\<lparr>records := AList.update domain r' (records c)\<rparr>)"
proof -
  let ?rs = "AList.update domain r' (records c)"
  have mem: "(domain, r) \<in> set (records c)" using Some by (rule map_of_SomeD)
  have sub: "set ?rs \<subseteq> insert (domain, r') (set (records c))" by (rule set_update_subset)
  have 1: "distinct (map fst ?rs)" using inv by (simp add: table_inv_def distinct_update)
  have 2: "\<forall>(d, x) \<in> set ?rs. Hostname x = d \<and> IP x \<in> set (allocated (ipPool c)) \<and>
             IP x \<in> set (usable (ipPool c))"
    using inv sub mem T by (fastforce simp: table_inv_def)
  have 3: "\<forall>(a, d) \<in> set (ip2Domain c).
             case map_of ?rs d of Some x \<Rightarrow> IP x = a | None \<Rightarrow> False"
    using inv Some T by (auto simp: table_inv_def update_conv' split: option.splits)
  have 4: "\<forall>(d, x) \<in> set ?rs. map_of (ip2Domain c) (IP x) = Some (Hostname x)"
    using inv sub mem T by (fastforce simp: table_inv_def bijection_inv_def)
  have 5: "distinct (map (\<lambda>(d, r). IP r) ?rs)"
    using inv update_same_image [OF Some T(2)] by (simp add: table_inv_def bijection_inv_def)
  show ?thesis
    unfolding table_inv_def bijection_inv_def using 1 2 3 4 5 by simp
qed

lemma table_inv_get: "table_inv c \<Longrightarrow> table_inv (snd (get ttl now c domain))"
  by (auto simp: get_def Let_def Touch_def split: option.splits intro!: table_inv_update_same)

lemma table_inv_GetByIP: "table_inv c \<Longrightarrow> table_inv (snd (GetByIP ttl now c a))"
  by (simp add: GetByIP_def table_inv_get split: option.splits)

lemma table_inv_evict:
  assumes inv: "table_inv c" and mem: "(domain, record) \<in> set (records c)"
  shows "table_inv (c\<lparr>records := AList.delete domain (records c),
                      ip2Domain := AList.delete (IP record) (ip2Domain c),
                      ipPool := Release (ipPool c) (IP record)\<rparr>)"
proof -
  from inv have dk: "distinct (map fst (records c))"
    and di: "distinct (map (\<lambda>(d, r). IP r) (records c))"
    by (simp_all add: table_inv_def bijection_inv_def)
  have lookup: "map_of (records c) domain = Some record" using dk mem by simp
  have other: "IP r \<noteq> IP record" if "(d, r) \<in> set (records c)" "d \<noteq> domain" for d r
    using distinct_map_eq [OF di that(1) mem] that(2) by auto
  have 1: "distinct (map fst (AList.delete domain (records c)))"
    using dk by (rule distinct_delete)
  have 2: "\<forall>(d, r) \<in> set (AList.delete domain (records c)).
             Hostname r = d \<and> IP r \<in> set (allocated (Release (ipPool c) (IP record))) \<and>
             IP r \<in> set (usable (Release (ipPool c) (IP record)))"
    using inv other by (auto simp: table_inv_def set_delete Release_def)
  have 3: "\<forall>(a, d) \<in> set (AList.delete (IP record) (ip2Domain c)).
             case map_of (AList.delete domain (records c)) d of
               Some r \<Rightarrow> IP r = a | None \<Rightarrow> False"
  proof (clarify)
    fix a d assume "(a, d) \<in> set (AList.delete (IP record) (ip2Domain c))"
    then have ad: "(a, d) \<in> set (ip2Domain c)" and ne: "a \<noteq> IP record"
      by (auto simp: set_delete)
    from inv ad obtain r where r: "map_of (records c) d = Some r" "IP r = a"
      by (auto simp: table_inv_def split: option.splits)
    with lookup ne have "d \<noteq> domain" by auto
    then show "case map_of (AList.delete domain (records c)) d of
                 Some r \<Rightarrow> IP r = a | None \<Rightarrow> False"
      using r by simp
  qed
  have 4: "\<forall>(d, r) \<in> set (AList.delete domain (records c)).
             map_of (AList.delete (IP record) (ip2Domain c)) (IP r) = Some (Hostname r)"
    using inv other by (auto simp: table_inv_def bijection_inv_def set_delete)
  have 5: "distinct (map (\<lambda>(d, r). IP r) (AList.delete domain (records c)))"
    using di by (rule distinct_map_delete)
  show ?thesis unfolding table_inv_def bijection_inv_def using 1 2 3 4 5 by simp
qed

lemma table_inv_sweep_fold:
  "table_inv c \<Longrightarrow> set xs \<subseteq> set (records c) \<Longrightarrow> distinct (map fst xs) \<Longrightarrow>
   table_inv (fst (fold (sweep_step now) xs (c, out)))"
proof (induction xs arbitrary: c out)
  case Nil
  then show ?case by simp
next
  case (Cons x xs)
  obtain domain rcd where x: "x = (domain, rcd)" by (cases x)
  show ?case
  proof (cases "Expires rcd < now")
    case False
    then show ?thesis using Cons x by simp
  next
    case True
    let ?c = "c\<lparr>records := AList.delete domain (records c),
                 ip2Domain := AList.delete (IP rcd) (ip2Domain c),
                 ipPool := Release (ipPool c) (IP rcd)\<rparr>"
    have "table_inv ?c" using Cons.prems x by (intro table_inv_evict) auto
    moreover have "set xs \<subseteq> set (records ?c)"
      using Cons.prems x by (force simp: set_delete)
    moreover have "distinct (map fst xs)" using Cons.prems by simp
    ultimately show ?thesis using Cons.IH [of ?c] True x by simp
  qed
qed

lemma table_inv_clearExpiredDomain:
  assumes "table_inv c"
  shows "table_inv (fst (clearExpiredDomain now c))"
proof -
  have "distinct (map fst (records c))" using assms by (simp add: table_inv_def)
  then have "table_inv (fst (fold (sweep_step now) (records c) (c, [])))"
    using assms by (intro table_inv_sweep_fold) simp_all
  then show ?thesis using assms by (simp add: clearExpiredDomain_def)
qed

lemma table_inv_reload_fold:
  "table_inv c \<Longrightarrow> set xs \<subseteq> set (records c) \<Longrightarrow> distinct (map fst xs) \<Longrightarrow>
   table_inv (fold reload_step xs c)"
proof (induction xs arbitrary: c)
  case Nil
  then show ?case by simp
next
  case (Cons x xs)
  obtain domain rcd where x: "x = (domain, rcd)" by (cases x)
  let ?c = "reload_step x c"
  have "table_inv ?c" using Cons.prems x by (auto intro: table_inv_evict)
  moreover have "set xs \<subseteq> set (records ?c)"
    using Cons.prems x by (force simp: set_delete)
  moreover have "distinct (map fst xs)" using Cons.prems by simp
  ultimately show ?case using Cons.IH [of ?c] by simp
qed

lemma reload_npd_fold:
  "records (fold reload_npd_step xs c) = records c \<and>
   ip2Domain (fold reload_npd_step xs c) = ip2Domain c \<and>
   ipPool (fold reload_npd_step xs c) = ipPool c"
  by (induction xs arbitrary: c) auto

lemma table_inv_Reload: "table_inv c \<Longrightarrow> table_inv (fst (Reload c a subnet))"
proof -
  assume inv: "table_inv c"
  let ?c1 = "fold reload_npd_step (nonProxyDomains c) c"
  have "table_inv ?c1" using inv by (simp add: table_inv_def bijection_inv_def reload_npd_fold)
  then have "table_inv (fold reload_step (records ?c1) ?c1)"
    by (intro table_inv_reload_fold) (simp_all add: table_inv_def)
  then show ?thesis by (simp add: Reload_def Let_def)
qed

lemma npd_fold:
  "records (fst (fold (npd_step now) xs (c, out))) = records c \<and>
   ip2Domain (fst (fold (npd_step now) xs (c, out))) = ip2Domain c \<and>
   ipPool (fst (fold (npd_step now) xs (c, out))) = ipPool c"
  by (induction xs arbitrary: c out) auto

lemma table_inv_frame:
  "records c' = records c \<Longrightarrow> ip2Domain c' = ip2Domain c \<Longrightarrow> ipPool c' = ipPool c \<Longrightarrow>
   table_inv c' = table_inv c"
  by (simp add: table_inv_def bijection_inv_def)

lemma table_inv_tick: "table_inv c \<Longrightarrow> table_inv (fst (tick now c))"
proof -
  assume inv: "table_inv c"
  obtain c1 out1 where 1: "clearExpiredDomain now c = (c1, out1)" by (cases "clearExpiredDomain now c")
  have "table_inv c1" using table_inv_clearExpiredDomain [OF inv, of now] 1 by simp
  then have "table_inv (fst (fold (npd_step now) (nonProxyDomains c1) (c1, [])))"
    using table_inv_frame [of "fst (fold (npd_step now) (nonProxyDomains c1) (c1, []))" c1] npd_fold
    by simp
  then show ?thesis
    using 1 by (auto simp: tick_def clearExpiredNonProxyDomain_def split: prod.splits)
qed

lemma table_inv_apply_op: "table_inv c \<Longrightarrow> table_inv (apply_op ttl op c)"
proof (cases op)
  case (OpSetRealIP domain msg)
  assume "table_inv c"
  then show ?thesis using OpSetRealIP
    by (auto simp: SetRealIP_def split: option.splits intro!: table_inv_update_same)
next
  case (OpSetNonProxyDomain now domain secs)
  assume "table_inv c"
  then show ?thesis using OpSetNonProxyDomain
    by (simp add: SetNonProxyDomain_def table_inv_def bijection_inv_def)
qed (simp_all add: table_inv_Set table_inv_get table_inv_GetByIP table_inv_tick
      table_inv_Reload Get_def)

lemma table_inv_run_ops: "table_inv c \<Longrightarrow> table_inv (run_ops ttl ops c)"
  unfolding run_ops_def by (induction ops arbitrary: c) (simp_all add: table_inv_apply_op)

lemma sweep_fold_closed:
  "fold (sweep_step now) xs (c, out) =
     (c\<lparr>records := filter (\<lambda>(d, r). d \<notin> fst ` set (expired now xs)) (records c),
        ip2Domain := filter (\<lambda>(a, d). a \<notin> (\<lambda>(d, r). IP r) ` set (expired now xs)) (ip2Domain c),
        ipPool := (ipPool c)\<lparr>allocated :=
          filter (\<lambda>a. a \<notin> (\<lambda>(d, r). IP r) ` set (expired now xs)) (allocated (ipPool c))\<rparr>\<rparr>,
      out @ map (\<lambda>(d, r). LogRelease d (IP r) (Hits r)) (expired now xs))"
proof (induction xs arbitrary: c out)
  case Nil
  show ?case by (simp add: expired_def)
next
  case (Cons x xs)
  obtain domain rcd where x: "x = (domain, rcd)" by (cases x)
  show ?case
  proof (cases "Expires rcd < now")
    case False
    then show ?thesis using Cons [of c out] x by (simp add: expired_def)
  next
    case True
    have "filter (\<lambda>(d, r). d \<notin> fst ` set (expired now xs)) (AList.delete domain (records c)) =
          filter (\<lambda>(d, r). d \<notin> fst ` set (expired now (x # xs))) (records c)"
      using True x by (auto simp: AList.delete_eq expired_def intro!: filter_cong)
    moreover have "filter (\<lambda>(a, d). a \<notin> (\<lambda>(d, r). IP r) ` set (expired now xs))
             (AList.delete (IP rcd) (ip2Domain c)) =
          filter (\<lambda>(a, d). a \<notin> (\<lambda>(d, r). IP r) ` set (expired now (x # xs))) (ip2Domain c)"
      using True x by (auto simp: AList.delete_eq expired_def intro!: filter_cong)
    moreover have "filter (\<lambda>a. a \<notin> (\<lambda>(d, r). IP r) ` set (expired now xs))
             (removeAll (IP rcd) (allocated (ipPool c))) =
          filter (\<lambda>a. a \<notin> (\<lambda>(d, r). IP r) ` set (expired now (x # xs))) (allocated (ipPool c))"
      using True x by (auto simp: removeAll_filter_not_eq expired_def intro!: filter_cong)
    moreover have "expired now (x # xs) = x # expired now xs"
      using True x by (simp add: expired_def)
    ultimately show ?thesis
      using True x Cons [of _ "out @ [LogRelease domain (IP rcd) (Hits rcd)]"]
      by (simp add: Release_def)
  qed
qed

lemma filter_keys_expired:
  assumes "distinct (map fst xs)"
  shows "filter (\<lambda>(d, r). d \<notin> fst ` set (expired now xs)) xs =
         filter (\<lambda>(d, r). \<not> Expires r < now) xs"
proof (rule filter_cong [OF refl])
  fix x assume mem: "x \<in> set xs"
  obtain d r where x: "x = (d, r)" by (cases x)
  have "d \<in> fst ` set (expired now xs) \<longleftrightarrow> Expires r < now"
  proof
    assume "d \<in> fst ` set (expired now xs)"
    then obtain r' where r': "(d, r') \<in> set xs" "Expires r' < now"
      by (auto simp: expired_def)
    with assms mem x have "r' = r" by (meson eq_key_imp_eq_value)
    with r' show "Expires r < now" by simp
  next
    assume "Expires r < now"
    with mem x show "d \<in> fst ` set (expired now xs)" by (force simp: expired_def)
  qed
  then show "(case x of (d, r) \<Rightarrow> d \<notin> fst ` set (expired now xs)) =
             (case x of (d, r) \<Rightarrow> \<not> Expires r < now)"
    using x by simp
qed

lemma threshold_eq: "threshold c = min 1000 (Capacity (ipPool c) div 10)"
  by (simp add: threshold_def Let_def min_def)

lemma sweep_skipped:
  "int (length (records c)) \<le> threshold c \<Longrightarrow> clearExpiredDomain now c = (c, [])"
  by (simp add: clearExpiredDomain_def)

lemma sweep_runs:
  assumes "threshold c < int (length (records c))"
  shows "clearExpiredDomain now c = fold (sweep_step now) (records c) (c, [])"
  using assms by (simp add: clearExpiredDomain_def)

lemma sweep_effect:
  assumes big: "threshold c < int (length (records c))" and dk: "distinct (map fst (records c))"
  shows "records (fst (clearExpiredDomain now c)) =
           filter (\<lambda>(d, r). \<not> Expires r < now) (records c)"
    and "(d, r) \<in> set (expired now (records c)) \<Longrightarrow>
           map_of (ip2Domain (fst (clearExpiredDomain now c))) (IP r) = None"
    and "(d, r) \<in> set (expired now (records c)) \<Longrightarrow>
           IP r \<notin> set (allocated (ipPool (fst (clearExpiredDomain now c))))"
    and "usable (ipPool (fst (clearExpiredDomain now c))) = usable (ipPool c)"
    and "nonProxyDomains (fst (clearExpiredDomain now c)) = nonProxyDomains c"
proof -
  note cf = sweep_runs [OF big, of now] sweep_fold_closed [of now "records c" c "[]"]
  show "records (fst (clearExpiredDomain now c)) =
           filter (\<lambda>(d, r). \<not> Expires r < now) (records c)"
    using cf filter_keys_expired [OF dk, of now] by simp
  show "usable (ipPool (fst (clearExpiredDomain now c))) = usable (ipPool c)"
    using cf by simp
  show "nonProxyDomains (fst (clearExpiredDomain now c)) = nonProxyDomains c"
    using cf by simp
  assume mem: "(d, r) \<in> set (expired now (records c))"
  then have img: "IP r \<in> (\<lambda>(d, r). IP r) ` set (expired now (records c))" by force
  show "IP r \<notin> set (allocated (ipPool (fst (clearExpiredDomain now c))))"
    using cf img by simp
  have "IP r \<notin> fst ` set (filter (\<lambda>(a, d). a \<notin> (\<lambda>(d, r). IP r) ` set (expired now (records c)))
                        (ip2Domain c))"
    using img by auto
  then show "map_of (ip2Domain (fst (clearExpiredDomain now c))) (IP r) = None"
    using cf by (simp add: map_of_eq_None_iff)
qed

subsection \<open>The bijection between records and reverse index\<close>

text \<open>
  Claim C1 (bijection invariant). The new table satisfies \<open>table_inv\<close>; so does every
  table that any sequence of operations reaches from it, hence in every such table the
  reverse index maps the address of each live record to its hostname and no two live
  records share an address; and each of \<^verbatim>\<open>Set\<close>, the sweep \<^verbatim>\<open>clearExpiredDomain\<close> and
  \<^verbatim>\<open>Reload\<close> takes a table that satisfies \<open>table_inv\<close> to one that does.
\<close>

theorem bijection_invariant:
  "table_inv (NewDnsTable pool) \<and>
   bijection_inv (run_ops ttl ops (NewDnsTable pool)) \<and>
   (table_inv c \<longrightarrow>
      bijection_inv c \<and>
      table_inv (fst (snd (Set ttl now c domain proxy))) \<and>
      table_inv (fst (clearExpiredDomain now c)) \<and>
      table_inv (fst (Reload c a subnet)))"
proof -
  have "table_inv (run_ops ttl ops (NewDnsTable pool))"
    by (rule table_inv_run_ops [OF table_inv_New])
  then have "bijection_inv (run_ops ttl ops (NewDnsTable pool))" by (simp add: table_inv_def)
  moreover have "table_inv c \<Longrightarrow> bijection_inv c" by (simp add: table_inv_def)
  ultimately show ?thesis
    by (simp add: table_inv_New table_inv_Set table_inv_clearExpiredDomain table_inv_Reload)
qed

lemma table4_eval:
  "table4 = \<lparr>ipPool = pool4\<lparr>allocated := [2, 5, 4, 3]\<rparr>,
     records = [(''a.example'', Touch 60 0 \<lparr>Hostname = ''a.example'', Proxy = ''proxy1'', IP = 3,
                  RealIP = None, Hits = 0, Expires = 0, answer = ForgeIPv4Answer 60 ''a.example'' 3\<rparr>),
                (''bb.example'', Touch 60 5 \<lparr>Hostname = ''bb.example'', Proxy = ''block'', IP = 4,
                  RealIP = None, Hits = 0, Expires = 0, answer = ForgeIPv4Answer 60 ''bb.example'' 4\<rparr>),
                (''ccc.example'', Touch 60 6 \<lparr>Hostname = ''ccc.example'', Proxy = ''proxy1'', IP = 5,
                  RealIP = None, Hits = 0, Expires = 0, answer = ForgeIPv4Answer 60 ''ccc.example'' 5\<rparr>),
                (''dddd.example'', Touch 60 7 \<lparr>Hostname = ''dddd.example'', Proxy = ''proxy1'', IP = 2,
                  RealIP = None, Hits = 0, Expires = 0, answer = ForgeIPv4Answer 60 ''dddd.example'' 2\<rparr>)],
     ip2Domain = [(3, ''a.example''), (4, ''bb.example''), (5, ''ccc.example''), (2, ''dddd.example'')],
     nonProxyDomains = []\<rparr>"
  by (simp add: table4_def table2_def run_ops_def NewDnsTable_def pool4_def Set_def Alloc_def
      free_def Let_def mod_Suc)

lemma table4_inv: "table_inv table4"
  by (simp add: table4_eval table_inv_def bijection_inv_def Touch_def pool4_def)

theorem bijection_invariant_witness:
  "table_inv table4 \<and> bijection_inv table4 \<and>
   table_inv (fst (snd (Set 60 66 table4 ''e.example'' ''proxy1''))) \<and>
   table_inv (fst (clearExpiredDomain 66 table4)) \<and>
   table_inv (fst (Reload table4 1 (0, 29))) \<and>
   map_of (records table4) ''bb.example'' \<noteq> None \<and>
   map_of (records (fst (clearExpiredDomain 66 table4))) ''bb.example'' = None"
proof -
  have "map_of (records (fst (clearExpiredDomain 66 table4))) ''bb.example'' = None"
    by (simp add: table4_eval clearExpiredDomain_def threshold_def Capacity_def pool4_def
        Touch_def Release_def)
  moreover have "map_of (records table4) ''bb.example'' \<noteq> None"
    by (simp add: table4_eval)
  ultimately show ?thesis
    using bijection_invariant [where pool = pool4 and ops = "[]" and c = table4 and ttl = 60
        and now = 66 and domain = "''e.example''" and proxy = "''proxy1''" and a = 1
        and subnet = "(0, 29)"]
      table4_inv
    by simp
qed

subsection \<open>Set: idempotence, round trip and exhaustion\<close>

lemma Set_existing:
  "map_of (records c) domain = Some r \<Longrightarrow> Set ttl now c domain proxy = (Some r, c, [])"
  by (simp add: Set_def)

lemma Set_Some_cases:
  assumes "Set ttl now c domain proxy = (Some r, c1, out)"
  shows "map_of (records c1) domain = Some r \<and>
         (if map_of (records c) domain = None
          then allocated (ipPool c1) = IP r # allocated (ipPool c) \<and> Hostname r = domain \<and>
               map_of (ip2Domain c1) (IP r) = Some domain
          else c1 = c)"
proof (cases "map_of (records c) domain")
  case (Some r')
  with assms show ?thesis by (simp add: Set_def)
next
  case None
  obtain res pool' where al: "Alloc (ipPool c) domain = (res, pool')"
    by (cases "Alloc (ipPool c) domain")
  with assms None obtain a where a: "res = Some a"
    by (cases res) (auto simp: Set_def)
  from Alloc_Some(3) [OF al [unfolded a]] assms None al a show ?thesis
    by (auto simp: Set_def Let_def Touch_def update_conv')
qed

text \<open>
  Claim C2 (idempotence and round trip). When \<^verbatim>\<open>Set(D, P)\<close> returns a record, a second
  \<^verbatim>\<open>Set(D, P)\<close> on the table it left returns the same record and changes nothing; the
  two calls together take one address from the pool, the address of the record, when
  \<open>D\<close> had no record before, and none when it had; and \<^verbatim>\<open>GetByIP\<close> of the address
  of the record returns a record whose hostname is \<open>D\<close>.
\<close>

theorem Set_idempotent_roundtrip:
  assumes "table_inv c" and "Set ttl now c domain proxy = (Some r, c1, out)"
  shows "Set ttl now' c1 domain proxy = (Some r, c1, []) \<and>
         allocated (ipPool c1) =
           (if map_of (records c) domain = None then IP r # allocated (ipPool c)
            else allocated (ipPool c)) \<and>
         map_option Hostname (fst (GetByIP ttl now'' c1 (IP r))) = Some domain"
proof -
  note S = Set_Some_cases [OF assms(2)]
  have look: "map_of (records c1) domain = Some r" using S by simp
  have 1: "Set ttl now' c1 domain proxy = (Some r, c1, [])" using look by (rule Set_existing)
  have 2: "allocated (ipPool c1) =
           (if map_of (records c) domain = None then IP r # allocated (ipPool c)
            else allocated (ipPool c))"
    using S by (auto split: if_splits)
  have inv1: "table_inv c1"
    using table_inv_Set [OF assms(1), of ttl now domain proxy] assms(2) by simp
  have mem: "(domain, r) \<in> set (records c1)" using look by (rule map_of_SomeD)
  with inv1 have "Hostname r = domain" "map_of (ip2Domain c1) (IP r) = Some (Hostname r)"
    by (auto simp: table_inv_def bijection_inv_def)
  then have 3: "map_option Hostname (fst (GetByIP ttl now'' c1 (IP r))) = Some domain"
    using look by (simp add: GetByIP_def get_def Let_def Touch_def)
  from 1 2 3 show ?thesis by blast
qed

lemma table2_eval:
  "table2 = \<lparr>ipPool = pool4\<lparr>allocated := [4, 3]\<rparr>,
     records = [(''a.example'', Touch 60 0 \<lparr>Hostname = ''a.example'', Proxy = ''proxy1'', IP = 3,
                  RealIP = None, Hits = 0, Expires = 0, answer = ForgeIPv4Answer 60 ''a.example'' 3\<rparr>),
                (''bb.example'', Touch 60 5 \<lparr>Hostname = ''bb.example'', Proxy = ''block'', IP = 4,
                  RealIP = None, Hits = 0, Expires = 0, answer = ForgeIPv4Answer 60 ''bb.example'' 4\<rparr>)],
     ip2Domain = [(3, ''a.example''), (4, ''bb.example'')],
     nonProxyDomains = []\<rparr>"
  by (simp add: table2_def run_ops_def NewDnsTable_def pool4_def Set_def Alloc_def
      free_def Let_def mod_Suc)

lemma table2_inv: "table_inv table2"
  by (simp add: table2_eval table_inv_def bijection_inv_def Touch_def pool4_def)

lemma table2_Set:
  "Set 60 6 table2 ''ccc.example'' ''proxy1'' =
     (Some (Touch 60 6 \<lparr>Hostname = ''ccc.example'', Proxy = ''proxy1'', IP = 5,
                  RealIP = None, Hits = 0, Expires = 0, answer = ForgeIPv4Answer 60 ''ccc.example'' 5\<rparr>),
      run_ops 60 [OpSet 6 ''ccc.example'' ''proxy1''] table2, [LogHijack ''ccc.example'' 5])"
  by (simp add: run_ops_def table2_eval pool4_def Set_def Alloc_def free_def Let_def mod_Suc)

theorem Set_idempotent_roundtrip_witness:
  "table_inv table2 \<and> map_of (records table2) ''ccc.example'' = None \<and>
   fst (Set 60 6 table2 ''ccc.example'' ''proxy1'') \<noteq> None \<and>
   fst (Set 60 9 (fst (snd (Set 60 6 table2 ''ccc.example'' ''proxy1''))) ''ccc.example'' ''proxy1'') =
     fst (Set 60 6 table2 ''ccc.example'' ''proxy1'') \<and>
   fst (snd (Set 60 9 (fst (snd (Set 60 6 table2 ''ccc.example'' ''proxy1''))) ''ccc.example'' ''proxy1'')) =
     fst (snd (Set 60 6 table2 ''ccc.example'' ''proxy1'')) \<and>
   allocated (ipPool (fst (snd (Set 60 6 table2 ''ccc.example'' ''proxy1'')))) =
     5 # allocated (ipPool table2) \<and>
   map_option Hostname
     (fst (GetByIP 60 20 (fst (snd (Set 60 6 table2 ''ccc.example'' ''proxy1''))) 5)) =
     Some ''ccc.example''"
proof -
  have none: "map_of (records table2) ''ccc.example'' = None" by (simp add: table2_eval)
  show ?thesis
    using Set_idempotent_roundtrip [OF table2_inv table2_Set, of 9 20] none
    by (simp add: table2_Set table2_inv Touch_def)
qed

text \<open>
  Claim C6 (atomic failure on exhaustion). When the domain has no record and \<^verbatim>\<open>Alloc\<close>
  returns \<^verbatim>\<open>nil\<close>, \<^verbatim>\<open>Set\<close> logs one line, returns \<^verbatim>\<open>nil\<close> and leaves the table as
  it was: both maps and the pool are unchanged. And a later attempt can succeed: after a
  sweep that runs and finds an expired record, \<^verbatim>\<open>Set\<close> for the same domain returns a
  record.
\<close>

theorem Set_exhausted_atomic:
  assumes "map_of (records c) domain = None" and "fst (Alloc (ipPool c) domain) = None"
  shows "Set ttl now c domain proxy = (None, c, [LogIPSpaceUsedUp domain]) \<and>
         (table_inv c \<and> threshold c < int (length (records c)) \<and>
          expired now' (records c) \<noteq> [] \<longrightarrow>
            fst (Set ttl now'' (fst (clearExpiredDomain now' c)) domain proxy) \<noteq> None)"
proof -
  obtain pool' where al: "Alloc (ipPool c) domain = (None, pool')"
    using assms(2) by (cases "Alloc (ipPool c) domain") simp
  then have "pool' = ipPool c" by (simp add: Alloc_None)
  with al assms(1) have 1: "Set ttl now c domain proxy = (None, c, [LogIPSpaceUsedUp domain])"
    by (simp add: Set_def)
  have 2: "fst (Set ttl now'' (fst (clearExpiredDomain now' c)) domain proxy) \<noteq> None"
    if inv: "table_inv c" and big: "threshold c < int (length (records c))"
      and ex: "expired now' (records c) \<noteq> []"
  proof -
    let ?c = "fst (clearExpiredDomain now' c)"
    from inv have dk: "distinct (map fst (records c))" by (simp add: table_inv_def)
    note E = sweep_effect [OF big dk, where now = now']
    from ex obtain d r where mem: "(d, r) \<in> set (expired now' (records c))"
      by (cases "expired now' (records c)") auto
    then have "(d, r) \<in> set (records c)" by (simp add: expired_def)
    with inv have "IP r \<in> set (usable (ipPool c))" by (auto simp: table_inv_def)
    with E(3) [OF mem] E(4) have "IP r \<in> set (free (ipPool ?c))" by (simp add: free_def)
    then have fr: "free (ipPool ?c) \<noteq> []" by auto
    have "domain \<notin> fst ` set (records c)" using assms(1) by (simp add: map_of_eq_None_iff)
    then have "domain \<notin> fst ` set (records ?c)" using E(1) by auto
    then have none: "map_of (records ?c) domain = None" by (simp add: map_of_eq_None_iff)
    show ?thesis using none fr by (simp add: Set_def Alloc_def Let_def)
  qed
  from 1 2 show ?thesis by blast
qed

theorem Set_exhausted_atomic_witness:
  "map_of (records table4) ''e.example'' = None \<and>
   fst (Alloc (ipPool table4) ''e.example'') = None \<and>
   Set 60 8 table4 ''e.example'' ''proxy1'' = (None, table4, [LogIPSpaceUsedUp ''e.example'']) \<and>
   table_inv table4 \<and> threshold table4 < int (length (records table4)) \<and>
   expired 1000 (records table4) \<noteq> [] \<and>
   fst (Set 60 1001 (fst (clearExpiredDomain 1000 table4)) ''e.example'' ''proxy1'') \<noteq> None"
proof -
  have 1: "map_of (records table4) ''e.example'' = None" by (simp add: table4_eval)
  have 2: "fst (Alloc (ipPool table4) ''e.example'') = None"
    by (simp add: table4_eval Alloc_def free_def pool4_def)
  have 3: "threshold table4 < int (length (records table4))"
    by (simp add: table4_eval threshold_eq Capacity_def pool4_def)
  have 4: "expired 1000 (records table4) \<noteq> []"
    by (simp add: table4_eval expired_def Touch_def)
  show ?thesis
    using Set_exhausted_atomic [OF 1 2, of 60 8 "''proxy1''" 1000 1001] 1 2 3 4 table4_inv
    by simp
qed

subsection \<open>The threshold of the sweep\<close>

lemma name_of_inj: "name_of i = name_of j \<longleftrightarrow> i = j"
  by (auto simp: name_of_def dest: arg_cong [where f = length])

lemma table_of_distinct: "distinct (map fst (records (table_of n)))"
  by (simp add: table_of_def distinct_map comp_def inj_on_def name_of_inj)

lemma table_of_Capacity: "Capacity (ipPool (table_of n)) = 100"
  by (simp add: table_of_def Capacity_def pool100_def)

lemma table_of_length: "length (records (table_of n)) = n"
  by (simp add: table_of_def)

lemma table_of_expired: "expired 1000 (records (table_of n)) = records (table_of n)"
  by (simp add: expired_def table_of_def record_of_def)

lemma table_of_inv: "n \<le> 100 \<Longrightarrow> table_inv (table_of n)"
proof -
  assume n: "n \<le> 100"
  have look: "map_of (map (\<lambda>i. (2 + i, name_of i)) [0 ..< n]) (2 + i) = Some (name_of i)"
    if "i < n" for i
  proof -
    have "map_of (map (\<lambda>i. (2 + i, name_of i)) [0 ..< n]) (2 + i) =
          map_of (map (\<lambda>k. (k, name_of (k - 2))) (map (\<lambda>i. 2 + i) [0 ..< n])) (2 + i)"
      by (simp add: comp_def)
    also have "\<dots> = Some (name_of i)"
      using that by (subst map_of_map_restrict) (simp add: restrict_map_def)
    finally show ?thesis .
  qed
  have look2: "map_of (map (\<lambda>i. (name_of i, record_of i)) [0 ..< n]) (name_of i) = Some (record_of i)"
    if "i < n" for i
    using that by (intro map_of_is_SomeI) (auto simp: distinct_map comp_def inj_on_def name_of_inj)
  have us: "2 + i \<in> set (usable (ipPool (table_of n)))" if "i < n" for i
    using that n by (simp add: table_of_def pool100_def del: upt_rec_numeral)
  have al: "2 + i \<in> set (allocated (ipPool (table_of n)))" if "i < n" for i
    using that by (simp add: table_of_def)
  have ip: "IP (record_of i) = 2 + i" and hn: "Hostname (record_of i) = name_of i" for i
    by (simp_all add: record_of_def)
  have 1: "distinct (map fst (records (table_of n)))" by (rule table_of_distinct)
  have 2: "\<forall>(d, r) \<in> set (records (table_of n)).
             Hostname r = d \<and> IP r \<in> set (allocated (ipPool (table_of n))) \<and>
             IP r \<in> set (usable (ipPool (table_of n)))"
    using us al by (auto simp: ip hn) (auto simp: table_of_def ip hn)
  have 3: "\<forall>(a, d) \<in> set (ip2Domain (table_of n)).
             case map_of (records (table_of n)) d of Some r \<Rightarrow> IP r = a | None \<Rightarrow> False"
    by (auto simp: table_of_def look2 ip)
  have 4: "\<forall>(d, r) \<in> set (records (table_of n)).
             map_of (ip2Domain (table_of n)) (IP r) = Some (Hostname r)"
    by (auto simp: table_of_def look look [unfolded add_2_eq_Suc] ip hn)
  have 5: "distinct (map (\<lambda>(d, r). IP r) (records (table_of n)))"
    by (simp add: table_of_def distinct_map comp_def inj_on_def ip)
  show ?thesis
    unfolding table_inv_def bijection_inv_def using 1 2 3 4 5 by simp
qed

text \<open>
  Claim C3, as stated, fails at the tenth record. The table of capacity 100 with ten
  records, all expired at time 1000, has as many records as the threshold, the test of
  the sweep is \<^verbatim>\<open>len(c.records) <= threshold\<close>, and the sweep and the whole tick leave
  the table as it is.
\<close>

theorem tenth_record_no_eviction:
  "table_inv (table_of 10) \<and>
   Capacity (ipPool (table_of 10)) = 100 \<and> threshold (table_of 10) = 10 \<and>
   length (records (table_of 10)) = 10 \<and>
   list_all (\<lambda>(d, r). Expires r < 1000) (records (table_of 10)) \<and>
   clearExpiredDomain 1000 (table_of 10) = (table_of 10, []) \<and>
   fst (tick 1000 (table_of 10)) = table_of 10"
proof -
  have nonproxy: "nonProxyDomains (table_of 10) = []" by (simp add: table_of_def)
  have ex: "list_all (\<lambda>(d, r). Expires r < 1000) (records (table_of 10))"
    by (simp add: table_of_def list_all_iff record_of_def)
  have th: "threshold (table_of 10) = 10" by (simp add: threshold_eq table_of_Capacity)
  have sw: "clearExpiredDomain 1000 (table_of 10) = (table_of 10, [])"
    by (rule sweep_skipped) (simp add: th table_of_length)
  have "fst (tick 1000 (table_of 10)) = table_of 10"
    by (simp add: tick_def sw clearExpiredNonProxyDomain_def nonproxy)
  with ex th sw show ?thesis by (simp add: table_of_inv table_of_Capacity table_of_length)
qed

text \<open>
  Claim C3, amended. With pool capacity 100 the threshold is 10. A table of at most ten
  records is left unchanged by the sweep, whatever has expired. A table of more than ten
  records loses exactly its expired records: the records kept are those not expired, and
  for each expired record the entry of its address is gone from the reverse index and its
  address is no longer outstanding in the pool.
\<close>

theorem sweep_threshold_gating:
  assumes "Capacity (ipPool c) = 100"
  shows "threshold c = 10 \<and>
         (length (records c) \<le> 10 \<longrightarrow> clearExpiredDomain now c = (c, [])) \<and>
         (10 < length (records c) \<and> distinct (map fst (records c)) \<longrightarrow>
            records (fst (clearExpiredDomain now c)) =
              filter (\<lambda>(d, r). \<not> Expires r < now) (records c) \<and>
            (\<forall>(d, r) \<in> set (expired now (records c)).
               map_of (ip2Domain (fst (clearExpiredDomain now c))) (IP r) = None \<and>
               IP r \<notin> set (allocated (ipPool (fst (clearExpiredDomain now c))))))"
proof -
  have th: "threshold c = 10" using assms by (simp add: threshold_eq)
  have skip: "clearExpiredDomain now c = (c, [])" if "length (records c) \<le> 10"
    using that th by (intro sweep_skipped) simp
  have run: "records (fst (clearExpiredDomain now c)) =
              filter (\<lambda>(d, r). \<not> Expires r < now) (records c) \<and>
            (\<forall>(d, r) \<in> set (expired now (records c)).
               map_of (ip2Domain (fst (clearExpiredDomain now c))) (IP r) = None \<and>
               IP r \<notin> set (allocated (ipPool (fst (clearExpiredDomain now c)))))"
    if "10 < length (records c)" "distinct (map fst (records c))"
  proof -
    have big: "threshold c < int (length (records c))" using that th by simp
    show ?thesis using sweep_effect(1,2,3) [OF big that(2), where now = now] by auto
  qed
  show ?thesis using th skip run by blast
qed

theorem sweep_threshold_gating_witness:
  "Capacity (ipPool (table_of 9)) = 100 \<and> Capacity (ipPool (table_of 11)) = 100 \<and>
   threshold (table_of 11) = 10 \<and>
   length (records (table_of 9)) = 9 \<and> clearExpiredDomain 1000 (table_of 9) = (table_of 9, []) \<and>
   length (records (table_of 11)) = 11 \<and> distinct (map fst (records (table_of 11))) \<and>
   expired 1000 (records (table_of 11)) = records (table_of 11) \<and>
   records (fst (clearExpiredDomain 1000 (table_of 11))) = [] \<and>
   map_of (ip2Domain (fst (clearExpiredDomain 1000 (table_of 11)))) (IP (record_of 10)) = None \<and>
   IP (record_of 10) \<notin> set (allocated (ipPool (fst (clearExpiredDomain 1000 (table_of 11)))))"
proof -
  note g9 = sweep_threshold_gating [OF table_of_Capacity [of 9], of 1000]
  note g11 = sweep_threshold_gating [OF table_of_Capacity [of 11], of 1000]
  have mem: "(name_of 10, record_of 10) \<in> set (expired 1000 (records (table_of 11)))"
    by (simp add: table_of_expired) (simp add: table_of_def)
  have all: "filter (\<lambda>(d, r). \<not> Expires r < 1000) (records (table_of 11)) = []"
    by (simp add: table_of_def record_of_def filter_empty_conv)
  have "records (fst (clearExpiredDomain 1000 (table_of 11))) = []"
    using g11 all by (simp add: table_of_length table_of_distinct)
  moreover have "map_of (ip2Domain (fst (clearExpiredDomain 1000 (table_of 11)))) (IP (record_of 10)) = None \<and>
   IP (record_of 10) \<notin> set (allocated (ipPool (fst (clearExpiredDomain 1000 (table_of 11)))))"
    using g11 mem by (auto simp: table_of_length table_of_distinct)
  moreover have "clearExpiredDomain 1000 (table_of 9) = (table_of 9, [])"
    using g9 by (simp add: table_of_length)
  ultimately show ?thesis
    using g11 by (simp add: table_of_Capacity table_of_length table_of_distinct table_of_expired)
qed

section \<open>Properties of the TCP tunnel\<close>

subsection \<open>Close\<close>

lemma Close_done: "closeOne t \<Longrightarrow> Close reason t = Inr t"
  by (simp add: Close_def)

lemma Close_first:
  assumes "ctx t = Some b" and "\<not> closeOne t"
  shows "Close reason t =
     Inr (t\<lparr>closeOne := True, localEndpointStatus := StatusClosed, remoteStatus := StatusClosed,
            ctx := Some True,
            effects := effects t @
              (case reason of None \<Rightarrow> [] | Some e \<Rightarrow> [LogClosedReason e (remoteAddr t)]) @
              [CtxCancel, LocalClose, RemoteClose]\<rparr>)"
  using assms
  by (cases reason)
     (simp_all add: Close_def Let_def emit_def SetLocalEndpointStatus_def SetRemoteStatus_def)

lemma Close_all_done: "closeOne t \<Longrightarrow> Close_all reasons t = Inr t"
  by (induction reasons) (simp_all add: Close_done)

text \<open>
  Claim C5, as stated for any tunnel, fails for a tunnel on which \<^verbatim>\<open>Run\<close> has not
  started: \<^verbatim>\<open>NewTCP2Socks\<close> leaves \<^verbatim>\<open>ctxCancel\<close> \<^verbatim>\<open>nil\<close>, so the first \<^verbatim>\<open>Close\<close> sets
  both statuses and panics at \<^verbatim>\<open>tcpTunnel.ctxCancel()\<close> before it closes the endpoint or
  the connection; the \<^verbatim>\<open>sync.Once\<close> counts the call as done, and a later \<^verbatim>\<open>Close\<close> does
  nothing. Neither close is ever invoked.
\<close>

theorem Close_before_Run_panics:
  "Close None (NewTCP2Socks ''a.example:443'') =
     Inl (NilDereference,
          (NewTCP2Socks ''a.example:443'')
            \<lparr>closeOne := True, localEndpointStatus := StatusClosed, remoteStatus := StatusClosed\<rparr>) \<and>
   effects ((NewTCP2Socks ''a.example:443'')
            \<lparr>closeOne := True, localEndpointStatus := StatusClosed, remoteStatus := StatusClosed\<rparr>) = [] \<and>
   Close (Some ''again'')
     ((NewTCP2Socks ''a.example:443'')
        \<lparr>closeOne := True, localEndpointStatus := StatusClosed, remoteStatus := StatusClosed\<rparr>) =
     Inr ((NewTCP2Socks ''a.example:443'')
        \<lparr>closeOne := True, localEndpointStatus := StatusClosed, remoteStatus := StatusClosed\<rparr>)"
  by (simp add: Close_def NewTCP2Socks_def Let_def SetLocalEndpointStatus_def SetRemoteStatus_def)

text \<open>
  Claim C5, amended. On a tunnel whose context \<^verbatim>\<open>Run\<close> has created and that has not been
  closed, any sequence of one or more calls of \<^verbatim>\<open>Close\<close>, whatever the reasons, ends
  as its first call does: the local endpoint and the remote connection are each closed
  exactly once, at most one reason is logged, both statuses are \<^verbatim>\<open>StatusClosed\<close>, and every
  call after the first (and any later one) leaves the tunnel unchanged.
\<close>

theorem Close_runs_once:
  assumes "ctx t \<noteq> None" and "\<not> closeOne t"
  shows "\<exists>t'. Close reason t = Inr t' \<and> Close_all (reason # rest) t = Inr t' \<and>
           closeOne t' \<and> (\<forall>r. Close r t' = Inr t') \<and>
           count_list (effects t') LocalClose = count_list (effects t) LocalClose + 1 \<and>
           count_list (effects t') RemoteClose = count_list (effects t) RemoteClose + 1 \<and>
           length (filter is_reason_log (effects t')) \<le>
             length (filter is_reason_log (effects t)) + 1 \<and>
           localEndpointStatus t' = StatusClosed \<and> remoteStatus t' = StatusClosed"
proof -
  from assms(1) obtain b where b: "ctx t = Some b" by auto
  let ?t = "t\<lparr>closeOne := True, localEndpointStatus := StatusClosed, remoteStatus := StatusClosed,
            ctx := Some True,
            effects := effects t @
              (case reason of None \<Rightarrow> [] | Some e \<Rightarrow> [LogClosedReason e (remoteAddr t)]) @
              [CtxCancel, LocalClose, RemoteClose]\<rparr>"
  have 1: "Close reason t = Inr ?t" using b assms(2) by (rule Close_first)
  have 2: "closeOne ?t" by simp
  have 3: "Close_all (reason # rest) t = Inr ?t" using 1 2 by (simp add: Close_all_done)
  have 4: "\<forall>r. Close r ?t = Inr ?t" using 2 by (simp add: Close_done)
  have 5: "count_list (effects ?t) LocalClose = count_list (effects t) LocalClose + 1"
    "count_list (effects ?t) RemoteClose = count_list (effects t) RemoteClose + 1"
    "length (filter is_reason_log (effects ?t)) \<le> length (filter is_reason_log (effects t)) + 1"
    by (cases reason; simp)+
  show ?thesis using 1 2 3 4 5 by (intro exI [of _ ?t]) simp
qed

theorem Close_runs_once_witness:
  "ctx running \<noteq> None \<and> \<not> closeOne running \<and>
   count_list (effects running) LocalClose = 0 \<and>
   (\<exists>t'. Close_all [Some ''read failed'', None, Some ''write failed''] running = Inr t' \<and>
      count_list (effects t') LocalClose = 1 \<and> count_list (effects t') RemoteClose = 1 \<and>
      filter is_reason_log (effects t') = [LogClosedReason ''read failed'' ''a.example:443''])"
proof -
  have h: "ctx running \<noteq> None" "\<not> closeOne running" by (simp_all add: running_def)
  have "Close_all [Some ''read failed'', None, Some ''write failed''] running =
        Inr (running\<lparr>closeOne := True, localEndpointStatus := StatusClosed,
               remoteStatus := StatusClosed, ctx := Some True,
               effects := [LogClosedReason ''read failed'' ''a.example:443'', CtxCancel,
                           LocalClose, RemoteClose]\<rparr>)"
    by (simp add: Close_def running_def Let_def emit_def SetLocalEndpointStatus_def
        SetRemoteStatus_def)
  with Close_runs_once [OF h, of "Some ''read failed''" "[None, Some ''write failed'']"] h
  show ?thesis by (simp add: running_def)
qed

subsection \<open>The remote-to-local pump\<close>

lemma Close_logs:
  "Close None t = Inr t' \<Longrightarrow> filter is_log (effects t') = filter is_log (effects t)"
  "Close None t = Inl (p, t') \<Longrightarrow> filter is_log (effects t') = filter is_log (effects t)"
  by (auto simp: Close_def Let_def emit_def SetLocalEndpointStatus_def SetRemoteStatus_def
      split: if_splits option.splits)

lemma Close_effects_prefix:
  "Close reason t = Inr t' \<Longrightarrow> \<exists>evs. effects t' = effects t @ evs"
  "Close reason t = Inl (p, t') \<Longrightarrow> \<exists>evs. effects t' = effects t @ evs"
  by (auto simp: Close_def Let_def emit_def SetLocalEndpointStatus_def SetRemoteStatus_def
      split: if_splits option.splits)

lemma close_and_return_logs:
  "filter is_log (effects (snd (close_and_return (Close None t)))) = filter is_log (effects t)"
  by (cases "Close None t") (auto simp: close_and_return_def dest: Close_logs)

lemma close_and_return_keeps:
  "ev \<in> set (effects t) \<Longrightarrow> ev \<in> set (effects (snd (close_and_return (Close reason t))))"
  by (cases "Close reason t") (auto simp: close_and_return_def dest: Close_effects_prefix)

lemma pump_read_error:
  "ctx t = Some False \<Longrightarrow>
   readFromRemoteWriteToLocal U ((buf, Some e) # rs) ws t =
     remote_read_failed U e (emit [RemoteSetReadDeadline IdleTimeout] t)"
  by (simp add: emit_def)

text \<open>
  Claim C7 (clean or error close on the remote-read path). When \<^verbatim>\<open>remoteConn.Read\<close>
  fails with an error that is a timeout, a connection reset or an end of stream, the pump
  calls \<^verbatim>\<open>Close(nil)\<close> and returns, and no line is logged. When the error is none of the
  three, the pump logs it, calls \<^verbatim>\<open>Close(err)\<close> and returns, and the error is among the
  lines logged. The pump reaches these statements on every failed read it makes while the
  context is live.
\<close>

theorem remote_read_clean_or_error:
  "(IsTimeout U e \<or> IsConnectionReset U e \<or> IsEOF U e \<longrightarrow>
      remote_read_failed U e t = close_and_return (Close None t) \<and>
      filter is_log (effects (snd (remote_read_failed U e t))) = filter is_log (effects t)) \<and>
   (\<not> IsTimeout U e \<and> \<not> IsConnectionReset U e \<and> \<not> IsEOF U e \<longrightarrow>
      remote_read_failed U e t = close_and_return (Close (Some e) (emit [LogError e] t)) \<and>
      LogError e \<in> set (effects (snd (remote_read_failed U e t)))) \<and>
   (ctx t = Some False \<longrightarrow>
      readFromRemoteWriteToLocal U ((buf, Some e) # rs) ws t =
        remote_read_failed U e (emit [RemoteSetReadDeadline IdleTimeout] t))"
proof -
  have 1: "remote_read_failed U e t = close_and_return (Close None t) \<and>
      filter is_log (effects (snd (remote_read_failed U e t))) = filter is_log (effects t)"
    if "IsTimeout U e \<or> IsConnectionReset U e \<or> IsEOF U e"
    using that by (auto simp: remote_read_failed_def close_and_return_logs)
  have 2: "remote_read_failed U e t = close_and_return (Close (Some e) (emit [LogError e] t)) \<and>
      LogError e \<in> set (effects (snd (remote_read_failed U e t)))"
    if "\<not> IsTimeout U e \<and> \<not> IsConnectionReset U e \<and> \<not> IsEOF U e"
    using that close_and_return_keeps [of "LogError e" "emit [LogError e] t" "Some e"]
    by (simp add: remote_read_failed_def emit_def)
  show ?thesis using 1 2 pump_read_error by blast
qed

theorem remote_read_clean_or_error_witness:
  "IsTimeout util0 ''i/o timeout'' \<and> ctx running = Some False \<and>
   readFromRemoteWriteToLocal util0 [([], Some ''i/o timeout'')] [] running =
     (Returned, running\<lparr>closeOne := True, localEndpointStatus := StatusClosed,
                  remoteStatus := StatusClosed, ctx := Some True,
                  effects := [RemoteSetReadDeadline IdleTimeout, CtxCancel, LocalClose,
                              RemoteClose]\<rparr>) \<and>
   \<not> IsTimeout util0 ''short buffer'' \<and> \<not> IsConnectionReset util0 ''short buffer'' \<and>
   \<not> IsEOF util0 ''short buffer'' \<and>
   readFromRemoteWriteToLocal util0 [([], Some ''short buffer'')] [] running =
     (Returned, running\<lparr>closeOne := True, localEndpointStatus := StatusClosed,
                  remoteStatus := StatusClosed, ctx := Some True,
                  effects := [RemoteSetReadDeadline IdleTimeout, LogError ''short buffer'',
                              LogClosedReason ''short buffer'' ''a.example:443'', CtxCancel,
                              LocalClose, RemoteClose]\<rparr>)"
proof -
  have c: "ctx running = Some False" by (simp add: running_def)
  have t: "IsTimeout util0 ''i/o timeout''" by (simp add: util0_def)
  have n: "\<not> IsTimeout util0 ''short buffer'' \<and> \<not> IsConnectionReset util0 ''short buffer'' \<and>
           \<not> IsEOF util0 ''short buffer''" by (simp add: util0_def)
  note A = remote_read_clean_or_error [where U = util0 and e = "''i/o timeout''"
      and t = "emit [RemoteSetReadDeadline IdleTimeout] running"]
    remote_read_clean_or_error [where U = util0 and e = "''i/o timeout''"
      and t = running and buf = "[]" and rs = "[]" and ws = "[]"]
  note B = remote_read_clean_or_error [where U = util0 and e = "''short buffer''"
      and t = "emit [RemoteSetReadDeadline IdleTimeout] running"]
    remote_read_clean_or_error [where U = util0 and e = "''short buffer''"
      and t = running and buf = "[]" and rs = "[]" and ws = "[]"]
  have ca: "close_and_return (Close None (emit [RemoteSetReadDeadline IdleTimeout] running)) =
     (Returned, running\<lparr>closeOne := True, localEndpointStatus := StatusClosed,
                  remoteStatus := StatusClosed, ctx := Some True,
                  effects := [RemoteSetReadDeadline IdleTimeout, CtxCancel, LocalClose,
                              RemoteClose]\<rparr>)"
    by (simp add: close_and_return_def Close_def running_def Let_def emit_def
        SetLocalEndpointStatus_def SetRemoteStatus_def)
  have cb: "close_and_return (Close (Some ''short buffer'')
              (emit [LogError ''short buffer''] (emit [RemoteSetReadDeadline IdleTimeout] running))) =
     (Returned, running\<lparr>closeOne := True, localEndpointStatus := StatusClosed,
                  remoteStatus := StatusClosed, ctx := Some True,
                  effects := [RemoteSetReadDeadline IdleTimeout, LogError ''short buffer'',
                              LogClosedReason ''short buffer'' ''a.example:443'', CtxCancel,
                              LocalClose, RemoteClose]\<rparr>)"
    by (simp add: close_and_return_def Close_def running_def Let_def emit_def
        SetLocalEndpointStatus_def SetRemoteStatus_def)
  show ?thesis using A B c t n ca cb by (simp add: emit_def)
qed

text \<open>
  Claim C10. A remote read of zero bytes with no error ends the pump: it returns having
  only set and cleared the read deadline, with no write to the local endpoint and no call
  of \<^verbatim>\<open>Close\<close>. The teardown is left to \<^verbatim>\<open>Run\<close>: once both pumps have returned, its
  \<^verbatim>\<open>Wait\<close> passes and its final \<^verbatim>\<open>Close(nil)\<close> closes the tunnel.
\<close>

theorem remote_zero_read_ends_pump:
  assumes "ctx t = Some False"
  shows "readFromRemoteWriteToLocal U (([], None) # rs) ws t =
           (Returned,
            emit [RemoteSetReadDeadline IdleTimeout, RemoteSetReadDeadline WithoutTimeout] t) \<and>
         (run_pc s = 5 \<and> remote_pump s = Finished \<and> local_pump s = Finished \<and>
          ctx (tun s) \<noteq> None \<longrightarrow>
            (\<exists>t'. Close None (tun s) = Inr t' \<and> closeOne t' \<and>
                   states U [RunStep, RunStep] s = [s\<lparr>run_pc := 6\<rparr>, s\<lparr>tun := t', run_pc := 7\<rparr>]))"
proof -
  have 1: "readFromRemoteWriteToLocal U (([], None) # rs) ws t =
           (Returned,
            emit [RemoteSetReadDeadline IdleTimeout, RemoteSetReadDeadline WithoutTimeout] t)"
    using assms by (simp add: emit_def)
  have 2: "\<exists>t'. Close None (tun s) = Inr t' \<and> closeOne t' \<and>
                   states U [RunStep, RunStep] s = [s\<lparr>run_pc := 6\<rparr>, s\<lparr>tun := t', run_pc := 7\<rparr>]"
    if h: "run_pc s = 5" "remote_pump s = Finished" "local_pump s = Finished" "ctx (tun s) \<noteq> None"
  proof (cases "closeOne (tun s)")
    case True
    then have "Close None (tun s) = Inr (tun s)" by (rule Close_done)
    then show ?thesis using True h by (simp add: run_step_def)
  next
    case False
    from h(4) obtain b where "ctx (tun s) = Some b" by auto
    from Close_first [OF this False, of None]
    obtain t' where "Close None (tun s) = Inr t'" "closeOne t'" by simp
    then show ?thesis using h by (simp add: run_step_def)
  qed
  from 1 2 show ?thesis by blast
qed

lemma waiting_eval:
  "waiting = \<lparr>tun = running\<lparr>effects := [RemoteSetReadDeadline IdleTimeout,
                  RemoteSetReadDeadline WithoutTimeout, EventRegister, EventUnregister]\<rparr>,
              run_pc = 5, remote_pump = Finished, local_pump = Finished\<rparr>"
  by (simp add: waiting_def zero_read_schedule_def start_def NewTCP2Socks_def run_step_def
      running_def emit_def SetRemoteStatus_def SetLocalEndpointStatus_def RemoteStatus_def
      LocalEndpointStatus_def readFromLocalWriteToRemote_def local_read_failed_def)

theorem remote_zero_read_ends_pump_witness:
  "ctx running = Some False \<and>
   readFromRemoteWriteToLocal util0 [([], None)] [] running =
     (Returned, running\<lparr>effects := [RemoteSetReadDeadline IdleTimeout,
                                     RemoteSetReadDeadline WithoutTimeout]\<rparr>) \<and>
   run_pc waiting = 5 \<and> remote_pump waiting = Finished \<and> local_pump waiting = Finished \<and>
   ctx (tun waiting) \<noteq> None \<and> \<not> closeOne (tun waiting) \<and>
   (\<exists>t'. Close None (tun waiting) = Inr t' \<and> closeOne t' \<and>
      states util0 [RunStep, RunStep] waiting =
        [waiting\<lparr>run_pc := 6\<rparr>, waiting\<lparr>tun := t', run_pc := 7\<rparr>])"
proof -
  have c: "ctx running = Some False" by (simp add: running_def)
  have w: "run_pc waiting = 5" "remote_pump waiting = Finished" "local_pump waiting = Finished"
    "ctx (tun waiting) \<noteq> None" "\<not> closeOne (tun waiting)"
    by (simp_all add: waiting_eval running_def)
  show ?thesis
    using remote_zero_read_ends_pump [OF c, of util0 "[]" "[]" waiting] c w
    by (simp add: emit_def running_def)
qed

subsection \<open>Run and the status fields\<close>

text \<open>
  Claim C8 (status monotonicity) fails on the code. \<^verbatim>\<open>Run\<close> starts the pumps before it
  sets the statuses to \<^verbatim>\<open>StatusProxying\<close>. In the schedule \<open>race_schedule\<close> the remote
  pump fails its first read and closes the tunnel in between: an observer sees both
  statuses \<^verbatim>\<open>StatusClosed\<close>, then \<^verbatim>\<open>Run\<close> sets them back to \<^verbatim>\<open>StatusProxying\<close>, and
  they stay so after \<^verbatim>\<open>Run\<close> has returned, on a tunnel whose endpoint and connection
  are closed.
\<close>

theorem status_reset_after_close:
  "map observe (states util0 race_schedule (start ''a.example:443'')) =
     [(StatusUnset, StatusUnset), (StatusUnset, StatusUnset), (StatusUnset, StatusUnset),
      (StatusClosed, StatusClosed), (StatusClosed, StatusProxying),
      (StatusProxying, StatusProxying), (StatusProxying, StatusProxying),
      (StatusProxying, StatusProxying), (StatusProxying, StatusProxying)] \<and>
   run_pc (last (states util0 race_schedule (start ''a.example:443''))) = 7 \<and>
   closeOne (tun (last (states util0 race_schedule (start ''a.example:443'')))) \<and>
   count_list (effects (tun (last (states util0 race_schedule (start ''a.example:443'')))))
     LocalClose = 1"
  by (simp add: race_schedule_def start_def NewTCP2Socks_def run_step_def observe_def
      emit_def SetRemoteStatus_def SetLocalEndpointStatus_def RemoteStatus_def
      LocalEndpointStatus_def readFromLocalWriteToRemote_def remote_read_failed_def
      close_and_return_def Close_def Let_def util0_def)

end
